theory Spec2Isabelle
  imports Main "HOL-Library.Sublist" "HOL-Library.AList"
begin

section \<open>Configuration values\<close>

text \<open>
  The configuration parser hands back nested Python values: strings, other scalars,
  lists and dictionaries with string keys. A dictionary is kept as an association list in
  insertion order, which is the order \<^verbatim>\<open>dict.items()\<close> iterates in.
\<close>

datatype hval =
    HStr string
  | HInt int
  | HBool bool
  | HNull
  | HList "hval list"
  | HDict "(string \<times> hval) list"

subsection \<open>String helpers of Python\<close>

text \<open>\<^verbatim>\<open>s.startswith((p1, p2, ...))\<close>: some element of the tuple is a prefix of \<open>s\<close>.\<close>

definition startswith :: "string \<Rightarrow> string list \<Rightarrow> bool" where
  "startswith s ps = list_ex (\<lambda>p. prefix p s) ps"

text \<open>
  \<^verbatim>\<open>s.strip(chars)\<close>: the characters of \<open>chars\<close> are a set; every leading and every
  trailing character of \<open>s\<close> that belongs to it is dropped.
\<close>

definition strip :: "string \<Rightarrow> string \<Rightarrow> string" where
  "strip s chars =
     rev (dropWhile (\<lambda>c. c \<in> set chars) (rev (dropWhile (\<lambda>c. c \<in> set chars) s)))"

section \<open>The dependency scanner\<close>

text \<open>
  \<^verbatim>\<open>extract_refs\<close> appends to the list \<^verbatim>\<open>dependencies\<close> of the enclosing call; the list
  is threaded through here. \<open>extract_items\<close> is the loop over \<^verbatim>\<open>obj.items()\<close> and
  \<open>extract_elems\<close> the loop over the items of a list; the three branches of the
  \<^verbatim>\<open>if/elif/elif\<close> chain are tried in the order of the source.
\<close>

fun extract_refs :: "hval \<Rightarrow> string list \<Rightarrow> string list"
  and extract_items :: "(string \<times> hval) list \<Rightarrow> string list \<Rightarrow> string list"
  and extract_elems :: "hval list \<Rightarrow> string list \<Rightarrow> string list" where
  "extract_refs (HDict kvs) deps = extract_items kvs deps"
| "extract_refs (HList xs) deps = extract_elems xs deps"
| "extract_refs _ deps = deps"
| "extract_items [] deps = deps"
| "extract_items ((key, HStr s) # rest) deps =
     extract_items rest
       (if key = ''source'' then deps @ [s]
        else if startswith s [''${'', ''data.'', ''module.''] then
          (let ref = strip s ''${}''
           in if startswith ref [''data.'', ''module.''] then deps @ [ref] else deps)
        else deps)"
| "extract_items ((key, HDict d) # rest) deps = extract_items rest (extract_refs (HDict d) deps)"
| "extract_items ((key, HList l) # rest) deps = extract_items rest (extract_refs (HList l) deps)"
| "extract_items ((key, _) # rest) deps = extract_items rest deps"
| "extract_elems [] deps = deps"
| "extract_elems (item # rest) deps = extract_elems rest (extract_refs item deps)"

text \<open>
  \<^verbatim>\<open>list(set(dependencies))\<close>: the duplicates go; Python leaves the order of the result
  open, and nothing below depends on it.
\<close>

definition extract_dependencies :: "hval \<Rightarrow> string list" where
  "extract_dependencies config = remdups (extract_refs config [])"

text \<open>
  The same scanner with the first two branches of the chain exchanged: the prefix rule is
  tried before the \<^verbatim>\<open>source\<close> rule. It is not part of the program; it is what
  ``considering rule (b) first'' means.
\<close>

fun extract_refs_b_first :: "hval \<Rightarrow> string list \<Rightarrow> string list"
  and extract_items_b_first :: "(string \<times> hval) list \<Rightarrow> string list \<Rightarrow> string list"
  and extract_elems_b_first :: "hval list \<Rightarrow> string list \<Rightarrow> string list" where
  "extract_refs_b_first (HDict kvs) deps = extract_items_b_first kvs deps"
| "extract_refs_b_first (HList xs) deps = extract_elems_b_first xs deps"
| "extract_refs_b_first _ deps = deps"
| "extract_items_b_first [] deps = deps"
| "extract_items_b_first ((key, HStr s) # rest) deps =
     extract_items_b_first rest
       (if startswith s [''${'', ''data.'', ''module.''] then
          (let ref = strip s ''${}''
           in if startswith ref [''data.'', ''module.''] then deps @ [ref] else deps)
        else if key = ''source'' then deps @ [s]
        else deps)"
| "extract_items_b_first ((key, HDict d) # rest) deps =
     extract_items_b_first rest (extract_refs_b_first (HDict d) deps)"
| "extract_items_b_first ((key, HList l) # rest) deps =
     extract_items_b_first rest (extract_refs_b_first (HList l) deps)"
| "extract_items_b_first ((key, _) # rest) deps = extract_items_b_first rest deps"
| "extract_elems_b_first [] deps = deps"
| "extract_elems_b_first (item # rest) deps =
     extract_elems_b_first rest (extract_refs_b_first item deps)"

text \<open>
  The string-valued fields of a configuration body: every pair of a key and a string that
  is the value of that key in some dictionary of the body, at any depth, in the order of
  the walk. A string that is an element of a list is not a field.
\<close>

fun str_fields :: "hval \<Rightarrow> (string \<times> string) list"
  and str_fields_items :: "(string \<times> hval) list \<Rightarrow> (string \<times> string) list"
  and str_fields_elems :: "hval list \<Rightarrow> (string \<times> string) list" where
  "str_fields (HDict kvs) = str_fields_items kvs"
| "str_fields (HList xs) = str_fields_elems xs"
| "str_fields _ = []"
| "str_fields_items [] = []"
| "str_fields_items ((key, HStr s) # rest) = (key, s) # str_fields_items rest"
| "str_fields_items ((key, v) # rest) = str_fields v @ str_fields_items rest"
| "str_fields_elems [] = []"
| "str_fields_elems (item # rest) = str_fields item @ str_fields_elems rest"

text \<open>What the scanner records for one field.\<close>

definition field_refs :: "string \<times> string \<Rightarrow> string list" where
  "field_refs f =
     (if fst f = ''source'' then [snd f]
      else if startswith (snd f) [''${'', ''data.'', ''module.'']
              \<and> startswith (strip (snd f) ''${}'') [''data.'', ''module.'']
      then [strip (snd f) ''${}'']
      else [])"

text \<open>Dropping, at every depth, the strings that are direct elements of a list.\<close>

fun drop_list_strs :: "hval \<Rightarrow> hval"
  and drop_list_strs_items :: "(string \<times> hval) list \<Rightarrow> (string \<times> hval) list"
  and drop_list_strs_elems :: "hval list \<Rightarrow> hval list" where
  "drop_list_strs (HDict kvs) = HDict (drop_list_strs_items kvs)"
| "drop_list_strs (HList xs) = HList (drop_list_strs_elems xs)"
| "drop_list_strs v = v"
| "drop_list_strs_items [] = []"
| "drop_list_strs_items ((key, v) # rest) = (key, drop_list_strs v) # drop_list_strs_items rest"
| "drop_list_strs_elems [] = []"
| "drop_list_strs_elems (HStr s # rest) = drop_list_strs_elems rest"
| "drop_list_strs_elems (item # rest) = drop_list_strs item # drop_list_strs_elems rest"

section \<open>The records of a parse run\<close>

text \<open>
  The dictionary stored for a module has the keys \<^verbatim>\<open>name\<close>, \<^verbatim>\<open>file\<close>, \<^verbatim>\<open>config\<close>
  and \<^verbatim>\<open>dependencies\<close>; the one stored for a resource or a data source has the key
  \<^verbatim>\<open>type\<close> as well. The field \<open>source_file\<close> is the key \<^verbatim>\<open>file\<close>.
\<close>

record module_info =
  name :: string
  source_file :: string
  config :: hval
  dependencies :: "string list"

record resource_info = module_info +
  type :: string

section \<open>Reading the configuration files\<close>

text \<open>
  The loops of \<^verbatim>\<open>parse_terraform\<close> take each element of a parsed section apart into two
  names, \<^verbatim>\<open>for resource_type, resource_instances in parsed['resource']\<close>. An element is
  therefore either a pair of a label and a body, or something that does not unpack into
  two, on which the loop raises.
\<close>

datatype 'a block = Block string 'a | Malformed

text \<open>
  A parsed file: each of the three sections is absent or a sequence of elements. The
  body of a resource or data element is again a sequence, of instance name and
  configuration; the body of a module element is the configuration.
\<close>

record hcl_document =
  doc_resource :: "hval block list block list option"
  doc_data :: "hval block list block list option"
  doc_module :: "hval block list option"

text \<open>
  A loop that can raise part-way: the dictionary it was filling keeps what was stored
  before the exception.
\<close>

datatype 's run = Done 's | Raised 's

fun resource_instances_loop ::
  "string \<Rightarrow> string \<Rightarrow> hval block list \<Rightarrow> (string \<times> resource_info) list
    \<Rightarrow> (string \<times> resource_info) list run" where
  "resource_instances_loop tf_file resource_type [] resources = Done resources"
| "resource_instances_loop tf_file resource_type (Malformed # rest) resources = Raised resources"
| "resource_instances_loop tf_file resource_type (Block resource_name resource_config # rest)
       resources =
     resource_instances_loop tf_file resource_type rest
       (AList.update (resource_type @ ''.'' @ resource_name)
          \<lparr>name = resource_name, source_file = tf_file, config = resource_config,
           dependencies = extract_dependencies resource_config, type = resource_type\<rparr>
          resources)"

fun resource_loop ::
  "string \<Rightarrow> hval block list block list \<Rightarrow> (string \<times> resource_info) list
    \<Rightarrow> (string \<times> resource_info) list run" where
  "resource_loop tf_file [] resources = Done resources"
| "resource_loop tf_file (Malformed # rest) resources = Raised resources"
| "resource_loop tf_file (Block resource_type resource_instances # rest) resources =
     (case resource_instances_loop tf_file resource_type resource_instances resources of
        Raised resources' \<Rightarrow> Raised resources'
      | Done resources' \<Rightarrow> resource_loop tf_file rest resources')"

fun data_instances_loop ::
  "string \<Rightarrow> string \<Rightarrow> hval block list \<Rightarrow> (string \<times> resource_info) list
    \<Rightarrow> (string \<times> resource_info) list run" where
  "data_instances_loop tf_file data_type [] data_sources = Done data_sources"
| "data_instances_loop tf_file data_type (Malformed # rest) data_sources = Raised data_sources"
| "data_instances_loop tf_file data_type (Block data_name data_config # rest) data_sources =
     data_instances_loop tf_file data_type rest
       (AList.update (''data.'' @ data_type @ ''.'' @ data_name)
          \<lparr>name = data_name, source_file = tf_file, config = data_config,
           dependencies = extract_dependencies data_config, type = data_type\<rparr>
          data_sources)"

fun data_loop ::
  "string \<Rightarrow> hval block list block list \<Rightarrow> (string \<times> resource_info) list
    \<Rightarrow> (string \<times> resource_info) list run" where
  "data_loop tf_file [] data_sources = Done data_sources"
| "data_loop tf_file (Malformed # rest) data_sources = Raised data_sources"
| "data_loop tf_file (Block data_type data_instances # rest) data_sources =
     (case data_instances_loop tf_file data_type data_instances data_sources of
        Raised data_sources' \<Rightarrow> Raised data_sources'
      | Done data_sources' \<Rightarrow> data_loop tf_file rest data_sources')"

fun module_loop ::
  "string \<Rightarrow> hval block list \<Rightarrow> (string \<times> module_info) list
    \<Rightarrow> (string \<times> module_info) list run" where
  "module_loop tf_file [] modules = Done modules"
| "module_loop tf_file (Malformed # rest) modules = Raised modules"
| "module_loop tf_file (Block module_name module_config # rest) modules =
     module_loop tf_file rest
       (AList.update module_name
          \<lparr>name = module_name, source_file = tf_file, config = module_config,
           dependencies = extract_dependencies module_config\<rparr>
          modules)"

text \<open>The dictionary \<^verbatim>\<open>parse_terraform\<close> returns and \<^verbatim>\<open>generate_graph\<close> reads.\<close>

record terraform_data =
  resources :: "(string \<times> resource_info) list"
  data_sources :: "(string \<times> resource_info) list"
  modules :: "(string \<times> module_info) list"
  path :: string

text \<open>
  The three \<^verbatim>\<open>if ... in parsed\<close> blocks: a section that is absent is skipped.
\<close>

definition resource_section ::
  "string \<Rightarrow> hcl_document \<Rightarrow> (string \<times> resource_info) list
    \<Rightarrow> (string \<times> resource_info) list run" where
  "resource_section tf_file parsed rs =
     (case doc_resource parsed of
        None \<Rightarrow> Done rs
      | Some bs \<Rightarrow> resource_loop tf_file bs rs)"

definition data_section ::
  "string \<Rightarrow> hcl_document \<Rightarrow> (string \<times> resource_info) list
    \<Rightarrow> (string \<times> resource_info) list run" where
  "data_section tf_file parsed ds =
     (case doc_data parsed of
        None \<Rightarrow> Done ds
      | Some bs \<Rightarrow> data_loop tf_file bs ds)"

definition module_section ::
  "string \<Rightarrow> hcl_document \<Rightarrow> (string \<times> module_info) list
    \<Rightarrow> (string \<times> module_info) list run" where
  "module_section tf_file parsed ms =
     (case doc_module parsed of
        None \<Rightarrow> Done ms
      | Some bs \<Rightarrow> module_loop tf_file bs ms)"

text \<open>
  The body of the \<^verbatim>\<open>try\<close> for one parsed file, with the \<^verbatim>\<open>except\<close> that abandons the
  file: the three sections in turn, the first exception ending the work on the file and
  leaving in the three dictionaries what was stored before it.
\<close>

definition parse_file :: "string \<Rightarrow> hcl_document \<Rightarrow> terraform_data \<Rightarrow> terraform_data" where
  "parse_file tf_file parsed st =
     (case resource_section tf_file parsed (resources st) of
        Raised r \<Rightarrow> st\<lparr>resources := r\<rparr>
      | Done r \<Rightarrow>
          (case data_section tf_file parsed (data_sources st) of
             Raised d \<Rightarrow> st\<lparr>resources := r, data_sources := d\<rparr>
           | Done d \<Rightarrow>
               (case module_section tf_file parsed (modules st) of
                  Raised m \<Rightarrow> st\<lparr>resources := r, data_sources := d, modules := m\<rparr>
                | Done m \<Rightarrow> st\<lparr>resources := r, data_sources := d, modules := m\<rparr>)))"

text \<open>
  What opening, reading and parsing one file gives: an exception (the file is skipped with
  a warning) or the parsed document.
\<close>

datatype file_content = Unreadable | Parsed hcl_document

text \<open>
  The file system as \<^verbatim>\<open>parse_terraform\<close> sees it: a path that does not exist, or the
  paths \<^verbatim>\<open>rglob("*.tf")\<close> finds below it, each relative to the root, with its content.
\<close>

type_synonym filesystem = "string \<Rightarrow> (string \<times> file_content) list option"

text \<open>\<^verbatim>\<open>FileNotFoundError\<close> is the error for a missing root, \<^verbatim>\<open>ValueError\<close> the one for
  a root without configuration files.\<close>

datatype error = FileNotFoundError | ValueError

text \<open>
  One round of the loop over the files: a file that cannot be opened, read or parsed
  leaves the three dictionaries as they are.
\<close>

definition parse_step :: "string \<times> file_content \<Rightarrow> terraform_data \<Rightarrow> terraform_data" where
  "parse_step = (\<lambda>(tf_file, content) st.
                   case content of
                     Unreadable \<Rightarrow> st
                   | Parsed parsed \<Rightarrow> parse_file tf_file parsed st)"

definition parse_terraform :: "filesystem \<Rightarrow> string \<Rightarrow> error + terraform_data" where
  "parse_terraform fs root =
     (case fs root of
        None \<Rightarrow> Inl FileNotFoundError
      | Some tf_files \<Rightarrow>
          if tf_files = [] then Inl ValueError
          else Inr (fold parse_step tf_files
                      \<lparr>resources = [], data_sources = [], modules = [], path = root\<rparr>))"

section \<open>What the parser library returns\<close>

text \<open>
  \<^verbatim>\<open>hcl2.loads\<close> returns a dictionary in which each of the keys \<^verbatim>\<open>resource\<close>,
  \<^verbatim>\<open>data\<close> and \<^verbatim>\<open>module\<close>, when the file has such blocks, holds a list with one
  dictionary per block: \<^verbatim>\<open>resource "aws_vpc" "main" {...}\<close> becomes
  \<^verbatim>\<open>{'aws_vpc': {'main': {...}}}\<close> and \<^verbatim>\<open>module "vpc" {...}\<close> becomes
  \<^verbatim>\<open>{'vpc': {...}}\<close>. Only these three keys are read.
\<close>

record hcl2_output =
  out_resource :: "(string \<times> hval) list list option"
  out_data :: "(string \<times> hval) list list option"
  out_module :: "(string \<times> hval) list list option"

text \<open>
  \<^verbatim>\<open>for a, b in ...\<close> on an element that is a dictionary iterates the keys of the
  dictionary: the element unpacks into two names exactly when it has two keys, and the
  names are bound to the two keys.
\<close>

definition unpack_keys :: "(string \<times> hval) list \<Rightarrow> (string \<times> string) option" where
  "unpack_keys element = (case map fst element of [a, b] \<Rightarrow> Some (a, b) | _ \<Rightarrow> None)"

text \<open>
  An element of the resource or data list as the loops see it. When it unpacks, the
  second name is bound to a key, which is a string; the inner loop iterates the characters
  of that string, and a character does not unpack into two names.
\<close>

definition typed_element :: "(string \<times> hval) list \<Rightarrow> hval block list block" where
  "typed_element element =
     (case unpack_keys element of
        None \<Rightarrow> Malformed
      | Some (a, b) \<Rightarrow> Block a (map (\<lambda>c. Malformed) b))"

text \<open>An element of the module list: when it unpacks, the configuration is the second key.\<close>

definition module_element :: "(string \<times> hval) list \<Rightarrow> hval block" where
  "module_element element =
     (case unpack_keys element of
        None \<Rightarrow> Malformed
      | Some (a, b) \<Rightarrow> Block a (HStr b))"

definition loaded :: "hcl2_output \<Rightarrow> hcl_document" where
  "loaded parsed =
     \<lparr>doc_resource = map_option (map typed_element) (out_resource parsed),
      doc_data = map_option (map typed_element) (out_data parsed),
      doc_module = map_option (map module_element) (out_module parsed)\<rparr>"

section \<open>The directed graph\<close>

text \<open>
  The graph library keeps, per node and in the order the nodes were added, a dictionary of
  attributes and the successors of the node in the order their edges were added. A node
  name is a key of both at once, so one association list holds the pair.
\<close>

type_synonym attrs = "(string \<times> string) list"
type_synonym digraph = "(string \<times> attrs \<times> string list) list"

definition has_node :: "digraph \<Rightarrow> string \<Rightarrow> bool" where
  "has_node G n = (n \<in> fst ` set G)"

text \<open>\<^verbatim>\<open>d.update(new)\<close> on an attribute dictionary.\<close>

definition dict_update :: "attrs \<Rightarrow> attrs \<Rightarrow> attrs" where
  "dict_update d new = fold (\<lambda>kv. AList.update (fst kv) (snd kv)) new d"

text \<open>
  \<^verbatim>\<open>G.add_node(n, **attr)\<close>: a new node gets the attributes and no successor; for a node
  that is there already the attributes are updated in place.
\<close>

definition add_node :: "string \<Rightarrow> attrs \<Rightarrow> digraph \<Rightarrow> digraph" where
  "add_node n attr G =
     (if has_node G n then AList.map_entry n (\<lambda>e. (dict_update (fst e) attr, snd e)) G
      else G @ [(n, dict_update [] attr, [])])"

text \<open>
  \<^verbatim>\<open>G.add_edge(u, v)\<close>: both ends become nodes when they are not yet, and \<open>v\<close> becomes a
  successor of \<open>u\<close> unless it is one already.
\<close>

definition add_edge :: "string \<Rightarrow> string \<Rightarrow> digraph \<Rightarrow> digraph" where
  "add_edge u v G =
     (let G1 = (if has_node G u then G else G @ [(u, [], [])]);
          G2 = (if has_node G1 v then G1 else G1 @ [(v, [], [])])
      in AList.map_entry u (\<lambda>e. (fst e, if v \<in> set (snd e) then snd e else snd e @ [v])) G2)"

text \<open>\<^verbatim>\<open>G.nodes(data=True)\<close> and \<^verbatim>\<open>G.edges()\<close>, in iteration order.\<close>

definition graph_nodes :: "digraph \<Rightarrow> (string \<times> attrs) list" where
  "graph_nodes G = map (\<lambda>e. (fst e, fst (snd e))) G"

definition graph_edges :: "digraph \<Rightarrow> (string \<times> string) list" where
  "graph_edges G = concat (map (\<lambda>e. map (Pair (fst e)) (snd (snd e))) G)"

section \<open>Graph assembly\<close>

text \<open>The inner loop over the dependencies of one record.\<close>

definition add_dependency_edges :: "string \<Rightarrow> string list \<Rightarrow> digraph \<Rightarrow> digraph" where
  "add_dependency_edges record_name deps G =
     fold (\<lambda>dep G. if has_node G dep then add_edge dep record_name G else G) deps G"

definition generate_graph :: "terraform_data \<Rightarrow> digraph" where
  "generate_graph data =
     (let G = [];
          G = fold (\<lambda>(resource_name, resource_info).
                add_node resource_name
                  [(''type'', ''resource''), (''resource_type'', type resource_info),
                   (''name'', name resource_info), (''file'', source_file resource_info)])
                (resources data) G;
          G = fold (\<lambda>(data_name, data_info).
                add_node data_name
                  [(''type'', ''data''), (''resource_type'', type data_info),
                   (''name'', name data_info), (''file'', source_file data_info)])
                (data_sources data) G;
          G = fold (\<lambda>(module_name, module_info).
                add_node module_name
                  [(''type'', ''module''), (''name'', module_name),
                   (''file'', source_file module_info)])
                (modules data) G;
          G = fold (\<lambda>(resource_name, resource_info).
                add_dependency_edges resource_name (dependencies resource_info))
                (resources data) G;
          G = fold (\<lambda>(data_name, data_info).
                add_dependency_edges data_name (dependencies data_info))
                (data_sources data) G;
          G = fold (\<lambda>(module_name, module_info).
                add_dependency_edges module_name (dependencies module_info))
                (modules data) G
      in G)"

section \<open>Exporters\<close>

text \<open>\<^verbatim>\<open>d.get(key, default)\<close>.\<close>

definition dict_get :: "(string \<times> 'a) list \<Rightarrow> string \<Rightarrow> 'a \<Rightarrow> 'a" where
  "dict_get d key dflt = (case map_of d key of Some v \<Rightarrow> v | None \<Rightarrow> dflt)"

definition get_node_color :: "string \<Rightarrow> string" where
  "get_node_color node_type =
     dict_get [(''resource'', ''#4CAF50''), (''data'', ''#2196F3''), (''module'', ''#FF9800'')]
       node_type ''#9E9E9E''"

definition get_node_shape :: "string \<Rightarrow> string" where
  "get_node_shape node_type =
     dict_get [(''resource'', ''box''), (''data'', ''ellipse''), (''module'', ''diamond'')]
       node_type ''box''"

definition get_node_group :: "string \<Rightarrow> int" where
  "get_node_group node_type =
     dict_get [(''resource'', 1), (''data'', 2), (''module'', 3)] node_type 0"

text \<open>The document \<^verbatim>\<open>_graph_to_json\<close> builds: dictionaries, lists, strings and integers.\<close>

datatype json =
    JStr string
  | JInt int
  | JList "json list"
  | JObj "(string \<times> json) list"

definition graph_to_json :: "digraph \<Rightarrow> json" where
  "graph_to_json graph =
     (let nodes = map (\<lambda>(node, attrs). JObj
            [(''id'', JStr node),
             (''name'', JStr (dict_get attrs ''name'' node)),
             (''type'', JStr (dict_get attrs ''type'' ''resource'')),
             (''resource_type'', JStr (dict_get attrs ''resource_type'' [])),
             (''file'', JStr (dict_get attrs ''file'' [])),
             (''group'', JInt (get_node_group (dict_get attrs ''type'' ''resource'')))])
            (graph_nodes graph);
          links = map (\<lambda>edge. JObj
            [(''source'', JStr (fst edge)),
             (''target'', JStr (snd edge)),
             (''value'', JInt 1)])
            (graph_edges graph)
      in JObj [(''nodes'', JList nodes), (''links'', JList links)])"

text \<open>Reading a loaded document: \<^verbatim>\<open>doc[key]\<close> on a dictionary.\<close>

fun json_get :: "json \<Rightarrow> string \<Rightarrow> json option" where
  "json_get (JObj kvs) key = map_of kvs key"
| "json_get _ key = None"

section \<open>Notions used in the statements\<close>

text \<open>Every string of a configuration body, wherever it stands.\<close>

fun all_strs :: "hval \<Rightarrow> string list"
  and all_strs_items :: "(string \<times> hval) list \<Rightarrow> string list"
  and all_strs_elems :: "hval list \<Rightarrow> string list" where
  "all_strs (HStr s) = [s]"
| "all_strs (HDict kvs) = all_strs_items kvs"
| "all_strs (HList xs) = all_strs_elems xs"
| "all_strs _ = []"
| "all_strs_items [] = []"
| "all_strs_items ((key, v) # rest) = all_strs v @ all_strs_items rest"
| "all_strs_elems [] = []"
| "all_strs_elems (item # rest) = all_strs item @ all_strs_elems rest"

text \<open>
  The records of the three collections side by side: qualified name, configuration body
  and dependency list of each.
\<close>

definition record_entries :: "terraform_data \<Rightarrow> (string \<times> hval \<times> string list) list" where
  "record_entries d =
     map (\<lambda>(n, i). (n, config i, dependencies i)) (resources d)
     @ map (\<lambda>(n, i). (n, config i, dependencies i)) (data_sources d)
     @ map (\<lambda>(n, i). (n, config i, dependencies i)) (modules d)"

definition record_names :: "terraform_data \<Rightarrow> string set" where
  "record_names d = fst ` set (record_entries d)"

text \<open>The dependency lists are the scanner's, as \<^verbatim>\<open>parse_terraform\<close> fills them in.\<close>

definition scanned :: "terraform_data \<Rightarrow> bool" where
  "scanned d = list_all (\<lambda>(n, body, deps). deps = extract_dependencies body) (record_entries d)"

text \<open>
  A graph in which no node name occurs twice and no node has the same successor twice;
  then \<^verbatim>\<open>G.edges()\<close> yields no edge twice.
\<close>

definition wf_graph :: "digraph \<Rightarrow> bool" where
  "wf_graph G = (distinct (map fst G) \<and> list_all (\<lambda>e. distinct (snd (snd e))) G)"

text \<open>The state a loop leaves behind, whether it completed or raised.\<close>

fun run_state :: "'s run \<Rightarrow> 's" where
  "run_state (Done s) = s"
| "run_state (Raised s) = s"

fun is_done :: "'s run \<Rightarrow> bool" where
  "is_done (Done s) = True"
| "is_done (Raised s) = False"

text \<open>The labels of the well-formed elements of a sequence, and their bodies.\<close>

fun blocks_of :: "'a block list \<Rightarrow> (string \<times> 'a) list" where
  "blocks_of [] = []"
| "blocks_of (Block l b # rest) = (l, b) # blocks_of rest"
| "blocks_of (Malformed # rest) = blocks_of rest"

text \<open>
  The declarations of a resource or data section: type and name of every instance that
  stands in a well-formed element.
\<close>

definition declared_in :: "hval block list block list option \<Rightarrow> (string \<times> string) list" where
  "declared_in section =
     (case section of
        None \<Rightarrow> []
      | Some bs \<Rightarrow> concat (map (\<lambda>b. map (\<lambda>i. (fst b, fst i)) (blocks_of (snd b)))
                           (blocks_of bs)))"

definition parsed_documents :: "(string \<times> file_content) list \<Rightarrow> hcl_document list" where
  "parsed_documents tf_files =
     concat (map (\<lambda>(f, c). case c of Unreadable \<Rightarrow> [] | Parsed doc \<Rightarrow> [doc]) tf_files)"

text \<open>
  What holds of the stored records: a resource is stored under \<^verbatim>\<open>type.name\<close> of its own
  two fields, a data source under \<^verbatim>\<open>data.type.name\<close>, both with type and name among the
  declared pairs \<open>D\<close>, and the dependency list of every record is the scanner's result on
  its configuration body.
\<close>

definition res_ok :: "(string \<times> string) set \<Rightarrow> (string \<times> resource_info) list \<Rightarrow> bool" where
  "res_ok D rs =
     (\<forall>(k, i) \<in> set rs. k = type i @ ''.'' @ name i \<and> (type i, name i) \<in> D
        \<and> dependencies i = extract_dependencies (config i))"

definition data_ok :: "(string \<times> string) set \<Rightarrow> (string \<times> resource_info) list \<Rightarrow> bool" where
  "data_ok D ds =
     (\<forall>(k, i) \<in> set ds. k = ''data.'' @ type i @ ''.'' @ name i \<and> (type i, name i) \<in> D
        \<and> dependencies i = extract_dependencies (config i))"

definition module_ok :: "(string \<times> module_info) list \<Rightarrow> bool" where
  "module_ok ms = (\<forall>(k, i) \<in> set ms. dependencies i = extract_dependencies (config i))"

definition state_ok ::
  "(string \<times> string) set \<Rightarrow> (string \<times> string) set \<Rightarrow> terraform_data \<Rightarrow> bool" where
  "state_ok R D st =
     (res_ok R (resources st) \<and> data_ok D (data_sources st) \<and> module_ok (modules st))"

text \<open>The dependency list of an entry is the scanner's result on its configuration body.\<close>

definition entry_scanned :: "string \<times> hval \<times> string list \<Rightarrow> bool" where
  "entry_scanned e = (snd (snd e) = extract_dependencies (fst (snd e)))"

text \<open>
  What the scanner with the prefix rule tried first records for one field, and the string
  values of a key \<^verbatim>\<open>source\<close> on which the order of the two rules makes no difference:
  those that begin with none of \<^verbatim>\<open>${\<close>, \<^verbatim>\<open>data.\<close> and \<^verbatim>\<open>module.\<close>, and those that
  begin with \<^verbatim>\<open>data.\<close> or \<^verbatim>\<open>module.\<close> and are left as they are by the stripping.
\<close>

definition field_refs_b_first :: "string \<times> string \<Rightarrow> string list" where
  "field_refs_b_first f =
     (if startswith (snd f) [''${'', ''data.'', ''module.''] then
        (if startswith (strip (snd f) ''${}'') [''data.'', ''module.'']
         then [strip (snd f) ''${}''] else [])
      else if fst f = ''source'' then [snd f]
      else [])"

definition order_free :: "string \<Rightarrow> bool" where
  "order_free s =
     (if startswith s [''${'', ''data.'', ''module.'']
      then strip s ''${}'' = s \<and> startswith s [''data.'', ''module.'']
      else True)"

text \<open>Every node carries the attribute \<^verbatim>\<open>type\<close>.\<close>

definition typed_graph :: "digraph \<Rightarrow> bool" where
  "typed_graph G = list_all (\<lambda>e. ''type'' \<in> fst ` set (fst (snd e))) G"

text \<open>The elements of the list under a key of a loaded document.\<close>

fun json_items :: "json option \<Rightarrow> json list" where
  "json_items (Some (JList xs)) = xs"
| "json_items _ = []"

section \<open>Example inputs\<close>

text \<open>
  What the parser returns for the file of the repository's own test, which declares
  \<^verbatim>\<open>resource "aws_vpc" "main"\<close> and \<^verbatim>\<open>resource "aws_subnet" "main"\<close> with
  \<^verbatim>\<open>vpc_id = aws_vpc.main.id\<close>.
\<close>

definition vpc_tf :: hcl2_output where
  "vpc_tf =
     \<lparr>out_resource = Some
        [[(''aws_vpc'', HDict [(''main'', HDict
            [(''cidr_block'', HStr ''10.0.0.0/16''),
             (''tags'', HDict [(''Name'', HStr ''test-vpc'')])])])],
         [(''aws_subnet'', HDict [(''main'', HDict
            [(''vpc_id'', HStr ''${aws_vpc.main.id}''),
             (''cidr_block'', HStr ''10.0.1.0/24''),
             (''tags'', HDict [(''Name'', HStr ''test-subnet'')])])])]],
      out_data = None, out_module = None\<rparr>"

text \<open>What it returns for a file with a resource, a data source and a module.\<close>

definition kinds_tf :: hcl2_output where
  "kinds_tf =
     \<lparr>out_resource = Some
        [[(''aws_vpc'', HDict [(''main'', HDict [(''cidr_block'', HStr ''10.0.0.0/16'')])])]],
      out_data = Some
        [[(''aws_ami'', HDict [(''ubuntu'', HDict [(''most_recent'', HBool True)])])]],
      out_module = Some
        [[(''vpc'', HDict [(''source'', HStr ''./modules/vpc'')])]]\<rparr>"

text \<open>
  A file system with the two files under two roots, the second next to a file that cannot
  be read, a root without configuration files, and nothing else.
\<close>

definition example_fs :: filesystem where
  "example_fs root =
     (if root = ''/vpc'' then Some [(''main.tf'', Parsed (loaded vpc_tf))]
      else if root = ''/kinds''
        then Some [(''broken.tf'', Unreadable), (''main.tf'', Parsed (loaded kinds_tf))]
      else if root = ''/empty'' then Some []
      else None)"

text \<open>Hand-written records, one of them with a dependency that names no record.\<close>

definition dangling_data :: terraform_data where
  "dangling_data =
     \<lparr>resources =
        [(''aws_vpc.main'',
          \<lparr>name = ''main'', source_file = ''main.tf'', config = HDict [],
           dependencies = [], type = ''aws_vpc''\<rparr>),
         (''aws_subnet.main'',
          \<lparr>name = ''main'', source_file = ''main.tf'', config = HDict [],
           dependencies = [''aws_vpc.main'', ''aws_vpc.missing''], type = ''aws_subnet''\<rparr>)],
      data_sources = [], modules = [], path = ''/test''\<rparr>"

text \<open>
  Hand-written records, as the repository's test of \<^verbatim>\<open>generate_graph\<close> passes them: a
  data source and six resources whose configuration bodies name it. In \<^verbatim>\<open>a\<close> to \<^verbatim>\<open>e\<close>
  the dependency list is what the scanner gives for the body: the reference is the value of
  a key (\<^verbatim>\<open>a\<close>), an element of a list (\<^verbatim>\<open>b\<close>), the value of the key \<^verbatim>\<open>source\<close>
  (\<^verbatim>\<open>c\<close>), a value in braces without the dollar sign (\<^verbatim>\<open>d\<close>), and a reference to an
  attribute of the data source (\<^verbatim>\<open>e\<close>). In \<^verbatim>\<open>f\<close> the body is that of \<^verbatim>\<open>a\<close> and the
  dependency list is empty.
\<close>

definition refs_data :: terraform_data where
  "refs_data =
     \<lparr>resources =
        [(''aws_instance.a'',
          \<lparr>name = ''a'', source_file = ''main.tf'',
           config = HDict [(''ami'', HStr ''${data.aws_ami.ubuntu}'')],
           dependencies = [''data.aws_ami.ubuntu''], type = ''aws_instance''\<rparr>),
         (''aws_instance.b'',
          \<lparr>name = ''b'', source_file = ''main.tf'',
           config = HDict [(''depends_on'', HList [HStr ''${data.aws_ami.ubuntu}''])],
           dependencies = [], type = ''aws_instance''\<rparr>),
         (''aws_instance.c'',
          \<lparr>name = ''c'', source_file = ''main.tf'',
           config = HDict [(''source'', HStr ''${data.aws_ami.ubuntu}'')],
           dependencies = [''${data.aws_ami.ubuntu}''], type = ''aws_instance''\<rparr>),
         (''aws_instance.d'',
          \<lparr>name = ''d'', source_file = ''main.tf'',
           config = HDict [(''ami'', HStr ''{data.aws_ami.ubuntu}'')],
           dependencies = [], type = ''aws_instance''\<rparr>),
         (''aws_instance.e'',
          \<lparr>name = ''e'', source_file = ''main.tf'',
           config = HDict [(''ami'', HStr ''${data.aws_ami.ubuntu.id}'')],
           dependencies = [''data.aws_ami.ubuntu.id''], type = ''aws_instance''\<rparr>),
         (''aws_instance.f'',
          \<lparr>name = ''f'', source_file = ''main.tf'',
           config = HDict [(''ami'', HStr ''${data.aws_ami.ubuntu}'')],
           dependencies = [], type = ''aws_instance''\<rparr>)],
      data_sources =
        [(''data.aws_ami.ubuntu'',
          \<lparr>name = ''ubuntu'', source_file = ''main.tf'',
           config = HDict [(''most_recent'', HBool True)],
           dependencies = [], type = ''aws_ami''\<rparr>)],
      modules = [], path = ''/test''\<rparr>"

section \<open>Properties of the scanner\<close>

lemma extract_refs_fields:
  "extract_refs v deps = deps @ concat (map field_refs (str_fields v))"
  "extract_items kvs deps = deps @ concat (map field_refs (str_fields_items kvs))"
  "extract_elems xs deps = deps @ concat (map field_refs (str_fields_elems xs))"
  by (induction v deps and kvs deps and xs deps
      rule: extract_refs_extract_items_extract_elems.induct)
    (simp_all add: field_refs_def Let_def)

lemma str_fields_drop_list_strs:
  "str_fields (drop_list_strs v) = str_fields v"
  "str_fields_items (drop_list_strs_items kvs) = str_fields_items kvs"
  "str_fields_elems (drop_list_strs_elems xs) = str_fields_elems xs"
proof (induction v and kvs and xs
    rule: drop_list_strs_drop_list_strs_items_drop_list_strs_elems.induct)
  fix key v rest
  assume "str_fields (drop_list_strs v) = str_fields v"
    and "str_fields_items (drop_list_strs_items rest) = str_fields_items rest"
  then show "str_fields_items (drop_list_strs_items ((key, v) # rest)) = str_fields_items ((key, v) # rest)"
    by (cases v) simp_all
qed simp_all

lemma extract_dependencies_set:
  "set (extract_dependencies body) = (\<Union>f \<in> set (str_fields body). set (field_refs f))"
  by (simp add: extract_dependencies_def extract_refs_fields(1))

lemma str_fields_elems_strs: "str_fields_elems (map HStr ss) = []"
  by (induction ss) simp_all

lemma last_dropWhile: "dropWhile P xs \<noteq> [] \<Longrightarrow> last (dropWhile P xs) = last xs"
  by (induction xs) (auto split: if_splits)

lemma strip_decomposition:
  "\<exists>l r. s = l @ strip s chars @ r \<and> set l \<subseteq> set chars \<and> set r \<subseteq> set chars"
proof -
  let ?P = "\<lambda>c. c \<in> set chars"
  let ?t = "dropWhile ?P s"
  have "?t = rev (takeWhile ?P (rev ?t) @ dropWhile ?P (rev ?t))"
    by (simp only: takeWhile_dropWhile_id rev_rev_ident)
  also have "\<dots> = rev (dropWhile ?P (rev ?t)) @ rev (takeWhile ?P (rev ?t))"
    by (simp only: rev_append)
  finally have t: "?t = strip s chars @ rev (takeWhile ?P (rev ?t))"
    by (simp only: strip_def)
  have "s = takeWhile ?P s @ ?t"
    by simp
  with t have "s = takeWhile ?P s @ strip s chars @ rev (takeWhile ?P (rev ?t))"
    by simp
  moreover have "set (takeWhile ?P s) \<subseteq> set chars"
    by (auto dest: set_takeWhileD)
  moreover have "set (rev (takeWhile ?P (rev ?t))) \<subseteq> set chars"
    by (auto dest: set_takeWhileD)
  ultimately show ?thesis
    by blast
qed

lemma strip_ends:
  assumes "strip s chars \<noteq> []"
  shows "hd (strip s chars) \<notin> set chars" and "last (strip s chars) \<notin> set chars"
proof -
  let ?P = "\<lambda>c. c \<in> set chars"
  let ?t = "dropWhile ?P s"
  let ?u = "dropWhile ?P (rev ?t)"
  from assms have u: "?u \<noteq> []"
    by (simp add: strip_def)
  have t: "?t \<noteq> []"
  proof
    assume "?t = []"
    then have "?u = []"
      by (simp del: dropWhile_eq_Nil_conv)
    with u show False
      by simp
  qed
  have "hd (strip s chars) = last ?u"
    using u by (simp add: strip_def hd_rev)
  also have "\<dots> = last (rev ?t)"
    using u by (rule last_dropWhile)
  also have "\<dots> = hd ?t"
    using t by (simp add: last_rev)
  finally show "hd (strip s chars) \<notin> set chars"
    using t hd_dropWhile[of ?P s] by simp
  have "last (strip s chars) = hd ?u"
    using u by (simp add: strip_def last_rev)
  then show "last (strip s chars) \<notin> set chars"
    using u hd_dropWhile[of ?P "rev ?t"] by simp
qed

lemma field_refs_iff:
  "d \<in> set (field_refs (key, s)) \<longleftrightarrow>
     (key = ''source'' \<and> d = s)
     \<or> (key \<noteq> ''source'' \<and> startswith s [''${'', ''data.'', ''module.'']
          \<and> d = strip s ''${}'' \<and> startswith d [''data.'', ''module.''])"
  by (auto simp: field_refs_def)

lemma extract_dependencies_iff:
  "d \<in> set (extract_dependencies body) \<longleftrightarrow>
     (\<exists>key s. (key, s) \<in> set (str_fields body) \<and>
        ((key = ''source'' \<and> d = s)
         \<or> (key \<noteq> ''source'' \<and> startswith s [''${'', ''data.'', ''module.'']
              \<and> d = strip s ''${}'' \<and> startswith d [''data.'', ''module.''])))"
  unfolding extract_dependencies_set by (simp add: Bex_def field_refs_iff)

subsection \<open>The two rules in the other order\<close>

lemma dropWhile_hd_id: "xs \<noteq> [] \<Longrightarrow> \<not> P (hd xs) \<Longrightarrow> dropWhile P xs = xs"
  by (cases xs) simp_all

lemma strip_idem: "strip (strip s chars) chars = strip s chars"
proof (cases "strip s chars = []")
  case True
  have "strip [] chars = []"
    by (simp add: strip_def)
  with True show ?thesis
    by simp
next
  case False
  define u where "u = strip s chars"
  from False have ne: "u \<noteq> []"
    by (simp add: u_def)
  from strip_ends [OF False] have h: "hd u \<notin> set chars" and l: "last u \<notin> set chars"
    by (simp_all add: u_def)
  from ne h have 1: "dropWhile (\<lambda>c. c \<in> set chars) u = u"
    by (rule dropWhile_hd_id)
  from ne have ne': "rev u \<noteq> []"
    by simp
  from ne l have "hd (rev u) \<notin> set chars"
    by (simp add: hd_rev)
  with ne' have 2: "dropWhile (\<lambda>c. c \<in> set chars) (rev u) = rev u"
    by (rule dropWhile_hd_id)
  have "strip u chars
      = rev (dropWhile (\<lambda>c. c \<in> set chars) (rev (dropWhile (\<lambda>c. c \<in> set chars) u)))"
    by (simp only: strip_def)
  also have "\<dots> = u"
    by (simp only: 1 2 rev_rev_ident)
  finally show ?thesis
    by (simp only: u_def)
qed

lemma extract_refs_b_first_all:
  "extract_refs_b_first v deps = deps @ concat (map field_refs_b_first (str_fields v))"
  "extract_items_b_first kvs deps = deps @ concat (map field_refs_b_first (str_fields_items kvs))"
  "extract_elems_b_first xs deps = deps @ concat (map field_refs_b_first (str_fields_elems xs))"
  by (induction v deps and kvs deps and xs deps
      rule: extract_refs_b_first_extract_items_b_first_extract_elems_b_first.induct)
    (simp_all add: field_refs_b_first_def Let_def)

lemma prefixed_triggers:
  "startswith s [''data.'', ''module.''] \<Longrightarrow> startswith s [''${'', ''data.'', ''module.'']"
  by (simp add: startswith_def)

lemma field_refs_b_first_eq:
  "field_refs_b_first f = field_refs f \<longleftrightarrow> (fst f = ''source'' \<longrightarrow> order_free (snd f))"
proof (cases "fst f = ''source''")
  case False
  then show ?thesis
    by (simp add: field_refs_b_first_def field_refs_def)
next
  case True
  show ?thesis
  proof (cases "startswith (snd f) [''${'', ''data.'', ''module.'']")
    case False
    with True show ?thesis
      by (simp add: field_refs_b_first_def field_refs_def order_free_def)
  next
    case trig: True
    show ?thesis
    proof (cases "strip (snd f) ''${}'' = snd f")
      case same: True
      with True trig show ?thesis
        by (simp add: field_refs_b_first_def field_refs_def order_free_def)
    next
      case False
      with True trig show ?thesis
        by (simp add: field_refs_b_first_def field_refs_def order_free_def)
    qed
  qed
qed

lemma field_refs_b_first_not_source:
  assumes "\<not> order_free s" and "s \<in> set (field_refs_b_first f)"
  shows False
proof -
  from assms(1) have trig: "startswith s [''${'', ''data.'', ''module.'']"
    and bad: "\<not> (strip s ''${}'' = s \<and> startswith s [''data.'', ''module.''])"
    by (auto simp: order_free_def split: if_splits)
  show False
  proof (cases "startswith (snd f) [''${'', ''data.'', ''module.'']")
    case True
    with assms(2) have s: "s = strip (snd f) ''${}''" and p: "startswith s [''data.'', ''module.'']"
      by (auto simp: field_refs_b_first_def split: if_splits)
    from s have "strip s ''${}'' = s"
      by (simp add: strip_idem)
    with p bad show False
      by simp
  next
    case False
    with assms(2) have "s = snd f"
      by (auto simp: field_refs_b_first_def split: if_splits)
    with False trig show False
      by simp
  qed
qed

lemma rule_order_lists:
  "extract_refs_b_first body [] = extract_refs body []
     \<longleftrightarrow> (\<forall>f \<in> set (str_fields body). fst f = ''source'' \<longrightarrow> order_free (snd f))"
  "set (extract_refs_b_first body []) = set (extract_refs body [])
     \<longleftrightarrow> (\<forall>f \<in> set (str_fields body). fst f = ''source'' \<longrightarrow> order_free (snd f))"
proof -
  let ?ok = "\<forall>f \<in> set (str_fields body). fst f = ''source'' \<longrightarrow> order_free (snd f)"
  have fwd: "extract_refs_b_first body [] = extract_refs body []" if "?ok"
  proof -
    have "map field_refs_b_first (str_fields body) = map field_refs (str_fields body)"
    proof (rule map_cong [OF refl])
      fix f
      assume "f \<in> set (str_fields body)"
      with that show "field_refs_b_first f = field_refs f"
        unfolding field_refs_b_first_eq by blast
    qed
    then show ?thesis
      by (simp only: extract_refs_b_first_all(1) extract_refs_fields(1))
  qed
  have bwd: "?ok" if eq: "set (extract_refs_b_first body []) = set (extract_refs body [])"
  proof (intro ballI impI)
    fix f
    assume f: "f \<in> set (str_fields body)" and src: "fst f = ''source''"
    show "order_free (snd f)"
    proof (rule ccontr)
      assume bad: "\<not> order_free (snd f)"
      from src have "snd f \<in> set (field_refs f)"
        by (simp add: field_refs_def)
      with f have "snd f \<in> set (extract_refs body [])"
        by (auto simp: extract_refs_fields(1))
      with eq have "snd f \<in> set (extract_refs_b_first body [])"
        by simp
      then obtain g where "snd f \<in> set (field_refs_b_first g)"
        by (auto simp: extract_refs_b_first_all(1))
      with bad show False
        by (rule field_refs_b_first_not_source)
    qed
  qed
  show "extract_refs_b_first body [] = extract_refs body [] \<longleftrightarrow> ?ok"
  proof
    assume "extract_refs_b_first body [] = extract_refs body []"
    then have "set (extract_refs_b_first body []) = set (extract_refs body [])"
      by simp
    then show "?ok"
      by (rule bwd)
  next
    assume "?ok"
    then show "extract_refs_b_first body [] = extract_refs body []"
      by (rule fwd)
  qed
  show "set (extract_refs_b_first body []) = set (extract_refs body []) \<longleftrightarrow> ?ok"
  proof
    assume "set (extract_refs_b_first body []) = set (extract_refs body [])"
    then show "?ok"
      by (rule bwd)
  next
    assume "?ok"
    then have "extract_refs_b_first body [] = extract_refs body []"
      by (rule fwd)
    then show "set (extract_refs_b_first body []) = set (extract_refs body [])"
      by simp
  qed
qed

section \<open>Properties of the graph operations\<close>

lemma map_fst_map_entry: "map fst (AList.map_entry k f xs) = map fst xs"
  by (induction xs) auto

lemma graph_edges_Nil: "graph_edges [] = []"
  by (simp add: graph_edges_def)

lemma graph_edges_Cons:
  "graph_edges (e # G) = map (Pair (fst e)) (snd (snd e)) @ graph_edges G"
  by (simp add: graph_edges_def)

lemma graph_edges_append: "graph_edges (G @ H) = graph_edges G @ graph_edges H"
  by (simp add: graph_edges_def)

lemma graph_edges_fst: "(u, v) \<in> set (graph_edges G) \<Longrightarrow> u \<in> fst ` set G"
  by (induction G) (auto simp: graph_edges_Cons graph_edges_Nil)

lemma map_fst_graph_nodes: "map fst (graph_nodes G) = map fst G"
  by (simp add: graph_nodes_def)

lemma wf_graph_distinct_edges: "wf_graph G \<Longrightarrow> distinct (graph_edges G)"
proof (induction G)
  case Nil
  then show ?case by (simp add: graph_edges_Nil)
next
  case (Cons e G)
  then have "distinct (graph_edges G)" and "distinct (snd (snd e))" and "fst e \<notin> fst ` set G"
    by (auto simp: wf_graph_def)
  then show ?case
    by (auto simp: graph_edges_Cons distinct_map inj_on_def dest: graph_edges_fst)
qed

lemma distinct_count_list: "distinct xs \<Longrightarrow> x \<in> set xs \<Longrightarrow> count_list xs x = 1"
  by (induction xs) auto

lemma dict_update_keys: "fst ` set (dict_update d new) = fst ` set d \<union> fst ` set new"
proof (induction new arbitrary: d)
  case Nil
  show ?case by (simp add: dict_update_def)
next
  case (Cons kv new)
  have "dict_update d (kv # new) = dict_update (AList.update (fst kv) (snd kv) d) new"
    by (simp add: dict_update_def)
  then show ?case
    by (simp add: Cons.IH dom_update)
qed

subsection \<open>Adding a node\<close>

lemma graph_edges_map_entry_attrs:
  "(\<And>e. snd (f e) = snd e) \<Longrightarrow> graph_edges (AList.map_entry n f G) = graph_edges G"
  by (induction G) (auto simp: graph_edges_Cons)

lemma list_all_map_entry_attrs:
  "(\<And>e. snd (f e) = snd e) \<Longrightarrow>
    list_all (\<lambda>e. P (snd (snd e))) (AList.map_entry n f G) = list_all (\<lambda>e. P (snd (snd e))) G"
  by (induction G) auto

lemma add_node_names:
  "map fst (add_node n a G) = (if has_node G n then map fst G else map fst G @ [n])"
  by (simp add: add_node_def map_fst_map_entry)

lemma add_node_set: "fst ` set (add_node n a G) = insert n (fst ` set G)"
proof -
  have "set (map fst (add_node n a G)) = insert n (set (map fst G))"
    unfolding add_node_names by (auto simp: has_node_def)
  then show ?thesis
    by simp
qed

lemma add_node_edges: "graph_edges (add_node n a G) = graph_edges G"
  by (simp add: add_node_def graph_edges_map_entry_attrs graph_edges_append graph_edges_Cons
      graph_edges_Nil)

lemma add_node_wf: "wf_graph G \<Longrightarrow> wf_graph (add_node n a G)"
  unfolding wf_graph_def add_node_names
  by (auto simp: has_node_def) (simp_all add: add_node_def has_node_def list_all_map_entry_attrs)

lemma typed_map_entry:
  "typed_graph G \<Longrightarrow> ''type'' \<in> fst ` set a \<Longrightarrow>
    typed_graph (AList.map_entry n (\<lambda>e. (dict_update (fst e) a, snd e)) G)"
  unfolding typed_graph_def by (induction G) (simp_all add: dict_update_keys)

lemma add_node_typed:
  "typed_graph G \<Longrightarrow> ''type'' \<in> fst ` set a \<Longrightarrow> typed_graph (add_node n a G)"
  by (simp add: add_node_def typed_map_entry) (simp add: typed_graph_def dict_update_keys)

subsection \<open>Adding an edge between two nodes\<close>

lemma add_edge_present:
  "has_node G u \<Longrightarrow> has_node G v \<Longrightarrow>
    add_edge u v G =
      AList.map_entry u (\<lambda>e. (fst e, if v \<in> set (snd e) then snd e else snd e @ [v])) G"
  by (simp add: add_edge_def)

lemma graph_nodes_map_entry_succ:
  "(\<And>e. fst (f e) = fst e) \<Longrightarrow> graph_nodes (AList.map_entry u f G) = graph_nodes G"
  unfolding graph_nodes_def by (induction G) auto

lemma graph_edges_map_entry_succ:
  "u \<in> fst ` set G \<Longrightarrow>
    set (graph_edges
          (AList.map_entry u (\<lambda>e. (fst e, if v \<in> set (snd e) then snd e else snd e @ [v])) G))
      = insert (u, v) (set (graph_edges G))"
  by (induction G) (auto simp: graph_edges_Cons)

lemma list_all_map_entry_succ:
  "list_all (\<lambda>e. distinct (snd (snd e))) G \<Longrightarrow>
    list_all (\<lambda>e. distinct (snd (snd e)))
      (AList.map_entry u (\<lambda>e. (fst e, if v \<in> set (snd e) then snd e else snd e @ [v])) G)"
  by (induction G) auto

lemma add_edge_nodes:
  "has_node G u \<Longrightarrow> has_node G v \<Longrightarrow> graph_nodes (add_edge u v G) = graph_nodes G"
  by (simp add: add_edge_present graph_nodes_map_entry_succ)

lemma add_edge_edges:
  "has_node G u \<Longrightarrow> has_node G v \<Longrightarrow>
    set (graph_edges (add_edge u v G)) = insert (u, v) (set (graph_edges G))"
  by (simp add: add_edge_present graph_edges_map_entry_succ has_node_def)

lemma add_edge_wf:
  "has_node G u \<Longrightarrow> has_node G v \<Longrightarrow> wf_graph G \<Longrightarrow> wf_graph (add_edge u v G)"
  by (simp add: wf_graph_def add_edge_present map_fst_map_entry list_all_map_entry_succ)

lemma graph_nodes_names: "graph_nodes G' = graph_nodes G \<Longrightarrow> fst ` set G' = fst ` set G"
  by (metis map_fst_graph_nodes list.set_map)

subsection \<open>The loops of graph assembly\<close>

lemma add_dependency_edges_props:
  "has_node G n \<Longrightarrow>
     graph_nodes (add_dependency_edges n deps G) = graph_nodes G
     \<and> set (graph_edges (add_dependency_edges n deps G))
         = set (graph_edges G) \<union> {(d, n) | d. d \<in> set deps \<and> d \<in> fst ` set G}
     \<and> (wf_graph G \<longrightarrow> wf_graph (add_dependency_edges n deps G))"
proof (induction deps arbitrary: G)
  case Nil
  then show ?case by (simp add: add_dependency_edges_def)
next
  case (Cons dep deps)
  let ?G = "if has_node G dep then add_edge dep n G else G"
  have nodes: "graph_nodes ?G = graph_nodes G"
    using Cons.prems by (simp add: add_edge_nodes)
  then have same: "fst ` set ?G = fst ` set G"
    by (rule graph_nodes_names)
  then have "has_node ?G n"
    using Cons.prems by (simp only: has_node_def)
  from Cons.IH [OF this]
  have IH: "graph_nodes (add_dependency_edges n deps ?G) = graph_nodes ?G"
    "set (graph_edges (add_dependency_edges n deps ?G))
         = set (graph_edges ?G) \<union> {(d, n) | d. d \<in> set deps \<and> d \<in> fst ` set ?G}"
    "wf_graph ?G \<longrightarrow> wf_graph (add_dependency_edges n deps ?G)"
    by blast+
  have step: "add_dependency_edges n (dep # deps) G = add_dependency_edges n deps ?G"
    by (simp add: add_dependency_edges_def)
  have edges: "set (graph_edges ?G)
      = set (graph_edges G) \<union> {(d, n) | d. d = dep \<and> d \<in> fst ` set G}"
    using Cons.prems by (auto simp: add_edge_edges has_node_def)
  have wf: "wf_graph G \<longrightarrow> wf_graph ?G"
    using Cons.prems by (simp add: add_edge_wf)
  show ?case
    unfolding step using IH nodes edges wf same by auto
qed

lemma fold_add_node_props:
  "fst ` set (fold (\<lambda>(n, i). add_node n (attr n i)) coll G) = fst ` set G \<union> fst ` set coll
   \<and> graph_edges (fold (\<lambda>(n, i). add_node n (attr n i)) coll G) = graph_edges G
   \<and> (wf_graph G \<longrightarrow> wf_graph (fold (\<lambda>(n, i). add_node n (attr n i)) coll G))
   \<and> (typed_graph G \<and> (\<forall>n i. ''type'' \<in> fst ` set (attr n i)) \<longrightarrow>
        typed_graph (fold (\<lambda>(n, i). add_node n (attr n i)) coll G))"
proof (induction coll arbitrary: G)
  case Nil
  show ?case by simp
next
  case (Cons x coll)
  obtain n i where x: "x = (n, i)"
    by (cases x)
  show ?case
    using Cons.IH [of "add_node n (attr n i) G"]
    by (auto simp: x add_node_set add_node_edges add_node_wf add_node_typed)
qed

lemma fold_dependency_edges_props:
  "fst ` set coll \<subseteq> fst ` set G \<Longrightarrow>
     graph_nodes (fold (\<lambda>(n, i). add_dependency_edges n (deps i)) coll G) = graph_nodes G
     \<and> set (graph_edges (fold (\<lambda>(n, i). add_dependency_edges n (deps i)) coll G))
         = set (graph_edges G)
           \<union> {(d, n) | d n i. (n, i) \<in> set coll \<and> d \<in> set (deps i) \<and> d \<in> fst ` set G}
     \<and> (wf_graph G \<longrightarrow> wf_graph (fold (\<lambda>(n, i). add_dependency_edges n (deps i)) coll G))"
proof (induction coll arbitrary: G)
  case Nil
  show ?case by simp
next
  case (Cons x coll)
  obtain n i where x: "x = (n, i)"
    by (cases x)
  let ?G = "add_dependency_edges n (deps i) G"
  have n: "has_node G n"
    using Cons.prems by (simp add: x has_node_def)
  note step = add_dependency_edges_props [OF n, of "deps i"]
  then have "graph_nodes ?G = graph_nodes G"
    by blast
  then have same: "fst ` set ?G = fst ` set G"
    by (rule graph_nodes_names)
  with Cons.prems have "fst ` set coll \<subseteq> fst ` set ?G"
    by simp
  from Cons.IH [OF this] show ?case
    using step same by (auto simp: x)
qed

subsection \<open>The assembled graph\<close>

lemma record_names_eq:
  "record_names d = fst ` set (resources d) \<union> fst ` set (data_sources d) \<union> fst ` set (modules d)"
  by (simp add: record_names_def record_entries_def image_Un image_image case_prod_beta
      Un_assoc)

lemma record_entries_iff:
  "(n, body, deps) \<in> set (record_entries d) \<longleftrightarrow>
     (\<exists>i. (n, i) \<in> set (resources d) \<and> body = config i \<and> deps = dependencies i)
     \<or> (\<exists>i. (n, i) \<in> set (data_sources d) \<and> body = config i \<and> deps = dependencies i)
     \<or> (\<exists>i. (n, i) \<in> set (modules d) \<and> body = config i \<and> deps = dependencies i)"
  by (auto simp: record_entries_def)

lemma typed_graph_nodes:
  "typed_graph G = list_all (\<lambda>p. ''type'' \<in> fst ` set (snd p)) (graph_nodes G)"
  by (simp add: typed_graph_def graph_nodes_def list.pred_map comp_def)

lemma generate_graph_props:
  "fst ` set (generate_graph d) = record_names d
   \<and> set (graph_edges (generate_graph d))
       = {(dep, n). dep \<in> record_names d
            \<and> (\<exists>body deps. (n, body, deps) \<in> set (record_entries d) \<and> dep \<in> set deps)}
   \<and> wf_graph (generate_graph d) \<and> typed_graph (generate_graph d)"
proof -
  define G1 where "G1 = fold (\<lambda>(resource_name, resource_info).
                add_node resource_name
                  [(''type'', ''resource''), (''resource_type'', type resource_info),
                   (''name'', name resource_info), (''file'', source_file resource_info)])
                (resources d) []"
  define G2 where "G2 = fold (\<lambda>(data_name, data_info).
                add_node data_name
                  [(''type'', ''data''), (''resource_type'', type data_info),
                   (''name'', name data_info), (''file'', source_file data_info)])
                (data_sources d) G1"
  define G3 where "G3 = fold (\<lambda>(mname, minfo).
                add_node mname
                  [(''type'', ''module''), (''name'', mname),
                   (''file'', source_file minfo)])
                (modules d) G2"
  define G4 where "G4 = fold (\<lambda>(resource_name, resource_info).
                add_dependency_edges resource_name (dependencies resource_info))
                (resources d) G3"
  define G5 where "G5 = fold (\<lambda>(data_name, data_info).
                add_dependency_edges data_name (dependencies data_info))
                (data_sources d) G4"
  define G6 where "G6 = fold (\<lambda>(mname, minfo).
                add_dependency_edges mname (dependencies minfo))
                (modules d) G5"
  have G: "generate_graph d = G6"
    by (simp add: generate_graph_def G1_def G2_def G3_def G4_def G5_def G6_def)
  have start: "wf_graph []" "typed_graph []"
    by (simp_all add: wf_graph_def typed_graph_def)
  have 1: "fst ` set G1 = fst ` set (resources d)" "graph_edges G1 = []" "wf_graph G1"
    "typed_graph G1"
    unfolding G1_def
    using fold_add_node_props [of "\<lambda>n i. [(''type'', ''resource''), (''resource_type'', type i),
                   (''name'', name i), (''file'', source_file i)]" "resources d" "[]"] start
    by (simp_all add: graph_edges_Nil)
  have 2: "fst ` set G2 = fst ` set (resources d) \<union> fst ` set (data_sources d)"
    "graph_edges G2 = []" "wf_graph G2" "typed_graph G2"
    unfolding G2_def
    using fold_add_node_props [of "\<lambda>n i. [(''type'', ''data''), (''resource_type'', type i),
                   (''name'', name i), (''file'', source_file i)]" "data_sources d" G1] 1
    by simp_all
  have 3: "fst ` set G3 = record_names d" "graph_edges G3 = []" "wf_graph G3" "typed_graph G3"
    unfolding G3_def record_names_eq
    using fold_add_node_props [of "\<lambda>n i. [(''type'', ''module''), (''name'', n),
                   (''file'', source_file i)]" "modules d" G2] 2
    by simp_all
  have sub3: "fst ` set (resources d) \<subseteq> fst ` set G3"
    using 3(1) by (auto simp: record_names_eq)
  note p4 = fold_dependency_edges_props [OF sub3, of dependencies, folded G4_def]
  have 4: "graph_nodes G4 = graph_nodes G3"
    "set (graph_edges G4) = {(dep, n) | dep n i. (n, i) \<in> set (resources d)
        \<and> dep \<in> set (dependencies i) \<and> dep \<in> record_names d}"
    "wf_graph G4"
  proof -
    from p4 show "graph_nodes G4 = graph_nodes G3" by blast
    from p4 show "set (graph_edges G4) = {(dep, n) | dep n i. (n, i) \<in> set (resources d)
        \<and> dep \<in> set (dependencies i) \<and> dep \<in> record_names d}"
      by (simp add: 3)
    from p4 3(3) show "wf_graph G4" by blast
  qed
  have n4: "fst ` set G4 = record_names d"
    using graph_nodes_names [OF 4(1)] 3(1) by simp
  have sub4: "fst ` set (data_sources d) \<subseteq> fst ` set G4"
    using n4 by (auto simp: record_names_eq)
  note p5 = fold_dependency_edges_props [OF sub4, of dependencies, folded G5_def]
  have 5: "graph_nodes G5 = graph_nodes G4"
    "set (graph_edges G5) = set (graph_edges G4)
        \<union> {(dep, n) | dep n i. (n, i) \<in> set (data_sources d)
        \<and> dep \<in> set (dependencies i) \<and> dep \<in> record_names d}"
    "wf_graph G5"
  proof -
    from p5 show "graph_nodes G5 = graph_nodes G4" by blast
    from p5 show "set (graph_edges G5) = set (graph_edges G4)
        \<union> {(dep, n) | dep n i. (n, i) \<in> set (data_sources d)
        \<and> dep \<in> set (dependencies i) \<and> dep \<in> record_names d}"
      by (simp add: n4)
    from p5 4(3) show "wf_graph G5" by blast
  qed
  have n5: "fst ` set G5 = record_names d"
    using graph_nodes_names [OF 5(1)] n4 by simp
  have sub5: "fst ` set (modules d) \<subseteq> fst ` set G5"
    using n5 by (auto simp: record_names_eq)
  note p6 = fold_dependency_edges_props [OF sub5, of dependencies, folded G6_def]
  have 6: "graph_nodes G6 = graph_nodes G5"
    "set (graph_edges G6) = set (graph_edges G5)
        \<union> {(dep, n) | dep n i. (n, i) \<in> set (modules d)
        \<and> dep \<in> set (dependencies i) \<and> dep \<in> record_names d}"
    "wf_graph G6"
  proof -
    from p6 show "graph_nodes G6 = graph_nodes G5" by blast
    from p6 show "set (graph_edges G6) = set (graph_edges G5)
        \<union> {(dep, n) | dep n i. (n, i) \<in> set (modules d)
        \<and> dep \<in> set (dependencies i) \<and> dep \<in> record_names d}"
      by (simp add: n5)
    from p6 5(3) show "wf_graph G6" by blast
  qed
  have n6: "fst ` set G6 = record_names d"
    using graph_nodes_names [OF 6(1)] n5 by simp
  have "graph_nodes G6 = graph_nodes G3"
    using 4(1) 5(1) 6(1) by simp
  with 3(4) have t6: "typed_graph G6"
    by (simp add: typed_graph_nodes)
  have "set (graph_edges G6) = {(dep, n). dep \<in> record_names d
            \<and> (\<exists>body deps. (n, body, deps) \<in> set (record_entries d) \<and> dep \<in> set deps)}"
    unfolding 6(2) 5(2) 4(2) record_entries_iff by blast
  then show ?thesis
    unfolding G using n6 6(3) t6 by simp
qed

section \<open>Properties of the record extractor\<close>

lemma update_entry:
  "(k', v') \<in> set (AList.update k v al) \<Longrightarrow> (k', v') = (k, v) \<or> (k', v') \<in> set al"
  by (induction al) (auto split: if_splits)

lemma resource_instances_loop_ok:
  "res_ok D rs \<Longrightarrow> (\<lambda>n. (t, n)) ` fst ` set (blocks_of insts) \<subseteq> D \<Longrightarrow>
    res_ok D (run_state (resource_instances_loop f t insts rs))"
proof (induction f t insts rs rule: resource_instances_loop.induct)
  case (3 tf_file resource_type resource_name resource_config rest rs)
  show ?case
    unfolding resource_instances_loop.simps
  proof (rule "3.IH")
    show "res_ok D (AList.update (resource_type @ ''.'' @ resource_name)
          \<lparr>name = resource_name, source_file = tf_file, config = resource_config,
           dependencies = extract_dependencies resource_config, type = resource_type\<rparr> rs)"
      using "3.prems" unfolding res_ok_def by (auto dest!: update_entry)
    show "(\<lambda>n. (resource_type, n)) ` fst ` set (blocks_of rest) \<subseteq> D"
      using "3.prems" by auto
  qed
qed simp_all

lemma resource_loop_ok:
  "res_ok D rs \<Longrightarrow> set (declared_in (Some bs)) \<subseteq> D \<Longrightarrow>
    res_ok D (run_state (resource_loop f bs rs))"
proof (induction f bs rs rule: resource_loop.induct)
  case (3 tf_file resource_type resource_instances rest rs)
  have sub: "(\<lambda>n. (resource_type, n)) ` fst ` set (blocks_of resource_instances) \<subseteq> D"
    and rest: "set (declared_in (Some rest)) \<subseteq> D"
    using "3.prems"(2) by (auto simp: declared_in_def)
  have ok: "res_ok D (run_state (resource_instances_loop tf_file resource_type resource_instances rs))"
    using "3.prems"(1) sub by (rule resource_instances_loop_ok)
  show ?case
  proof (cases "resource_instances_loop tf_file resource_type resource_instances rs")
    case (Done rs')
    with ok "3.IH" [OF Done _ rest] show ?thesis by simp
  next
    case (Raised rs')
    with ok show ?thesis by simp
  qed
qed simp_all

lemma data_instances_loop_ok:
  "data_ok D rs \<Longrightarrow> (\<lambda>n. (t, n)) ` fst ` set (blocks_of insts) \<subseteq> D \<Longrightarrow>
    data_ok D (run_state (data_instances_loop f t insts rs))"
proof (induction f t insts rs rule: data_instances_loop.induct)
  case (3 tf_file data_type data_name data_config rest rs)
  show ?case
    unfolding data_instances_loop.simps
  proof (rule "3.IH")
    show "data_ok D (AList.update (''data.'' @ data_type @ ''.'' @ data_name)
          \<lparr>name = data_name, source_file = tf_file, config = data_config,
           dependencies = extract_dependencies data_config, type = data_type\<rparr> rs)"
      using "3.prems" unfolding data_ok_def by (auto dest!: update_entry)
    show "(\<lambda>n. (data_type, n)) ` fst ` set (blocks_of rest) \<subseteq> D"
      using "3.prems" by auto
  qed
qed simp_all

lemma data_loop_ok:
  "data_ok D rs \<Longrightarrow> set (declared_in (Some bs)) \<subseteq> D \<Longrightarrow>
    data_ok D (run_state (data_loop f bs rs))"
proof (induction f bs rs rule: data_loop.induct)
  case (3 tf_file data_type data_instances rest rs)
  have sub: "(\<lambda>n. (data_type, n)) ` fst ` set (blocks_of data_instances) \<subseteq> D"
    and rest: "set (declared_in (Some rest)) \<subseteq> D"
    using "3.prems"(2) by (auto simp: declared_in_def)
  have ok: "data_ok D (run_state (data_instances_loop tf_file data_type data_instances rs))"
    using "3.prems"(1) sub by (rule data_instances_loop_ok)
  show ?case
  proof (cases "data_instances_loop tf_file data_type data_instances rs")
    case (Done rs')
    with ok "3.IH" [OF Done _ rest] show ?thesis by simp
  next
    case (Raised rs')
    with ok show ?thesis by simp
  qed
qed simp_all

lemma module_loop_ok:
  "module_ok ms \<Longrightarrow> module_ok (run_state (module_loop f bs ms))"
proof (induction f bs ms rule: module_loop.induct)
  case (3 tf_file mname mconfig rest ms)
  show ?case
    unfolding module_loop.simps
  proof (rule "3.IH")
    show "module_ok (AList.update mname
          \<lparr>name = mname, source_file = tf_file, config = mconfig,
           dependencies = extract_dependencies mconfig\<rparr> ms)"
      using "3.prems" unfolding module_ok_def by (auto dest!: update_entry)
  qed
qed simp_all

lemma parse_file_resources:
  "resources (parse_file f doc st) = run_state (resource_section f doc (resources st))"
  by (simp add: parse_file_def split: run.splits)

lemma parse_file_data_sources:
  "data_sources (parse_file f doc st) =
     (if is_done (resource_section f doc (resources st))
      then run_state (data_section f doc (data_sources st)) else data_sources st)"
  by (simp add: parse_file_def split: run.splits)

lemma parse_file_modules:
  "modules (parse_file f doc st) =
     (if is_done (resource_section f doc (resources st))
        \<and> is_done (data_section f doc (data_sources st))
      then run_state (module_section f doc (modules st)) else modules st)"
  by (simp add: parse_file_def split: run.splits)

lemma resource_section_ok:
  "res_ok R rs \<Longrightarrow> set (declared_in (doc_resource doc)) \<subseteq> R \<Longrightarrow>
    res_ok R (run_state (resource_section f doc rs))"
  by (cases "doc_resource doc") (simp_all add: resource_section_def resource_loop_ok)

lemma data_section_ok:
  "data_ok D ds \<Longrightarrow> set (declared_in (doc_data doc)) \<subseteq> D \<Longrightarrow>
    data_ok D (run_state (data_section f doc ds))"
  by (cases "doc_data doc") (simp_all add: data_section_def data_loop_ok)

lemma module_section_ok:
  "module_ok ms \<Longrightarrow> module_ok (run_state (module_section f doc ms))"
  by (cases "doc_module doc") (simp_all add: module_section_def module_loop_ok)

lemma parse_file_ok:
  assumes "state_ok R D st" and "set (declared_in (doc_resource doc)) \<subseteq> R"
    and "set (declared_in (doc_data doc)) \<subseteq> D"
  shows "state_ok R D (parse_file f doc st)"
  using assms unfolding state_ok_def parse_file_resources parse_file_data_sources
    parse_file_modules
  by (simp add: resource_section_ok data_section_ok module_section_ok)

lemma parse_terraform_Inr:
  "parse_terraform fs root = Inr d \<longleftrightarrow>
    (\<exists>tf_files. fs root = Some tf_files \<and> tf_files \<noteq> []
       \<and> d = fold parse_step tf_files \<lparr>resources = [], data_sources = [], modules = [], path = root\<rparr>)"
  by (auto simp: parse_terraform_def split: option.splits)

lemma fold_parse_step_ok:
  "state_ok R D st \<Longrightarrow>
   (\<And>doc. doc \<in> set (parsed_documents tf_files) \<Longrightarrow>
      set (declared_in (doc_resource doc)) \<subseteq> R \<and> set (declared_in (doc_data doc)) \<subseteq> D) \<Longrightarrow>
   state_ok R D (fold parse_step tf_files st)"
proof (induction tf_files arbitrary: st)
  case Nil
  then show ?case by simp
next
  case (Cons x tf_files)
  obtain f c where x: "x = (f, c)"
    by (cases x)
  have "state_ok R D (parse_step x st)"
  proof (cases c)
    case Unreadable
    with Cons.prems(1) show ?thesis by (simp add: x parse_step_def)
  next
    case (Parsed doc)
    then have "doc \<in> set (parsed_documents (x # tf_files))"
      by (simp add: x parsed_documents_def)
    from Cons.prems(2) [OF this] Cons.prems(1) show ?thesis
      by (simp add: x Parsed parse_step_def parse_file_ok)
  qed
  moreover have "\<And>doc. doc \<in> set (parsed_documents tf_files) \<Longrightarrow>
      set (declared_in (doc_resource doc)) \<subseteq> R \<and> set (declared_in (doc_data doc)) \<subseteq> D"
    using Cons.prems(2) by (simp add: parsed_documents_def)
  ultimately show ?case
    using Cons.IH by simp
qed

lemma parse_terraform_state_ok:
  assumes "parse_terraform fs root = Inr d" and "fs root = Some tf_files"
  shows "state_ok (\<Union>doc \<in> set (parsed_documents tf_files). set (declared_in (doc_resource doc)))
           (\<Union>doc \<in> set (parsed_documents tf_files). set (declared_in (doc_data doc))) d"
proof -
  let ?init = "\<lparr>resources = [], data_sources = [], modules = [], path = root\<rparr>"
  from assms have d: "d = fold parse_step tf_files ?init"
    by (auto simp: parse_terraform_Inr)
  have "state_ok (\<Union>doc \<in> set (parsed_documents tf_files). set (declared_in (doc_resource doc)))
           (\<Union>doc \<in> set (parsed_documents tf_files). set (declared_in (doc_data doc))) ?init"
    by (simp add: state_ok_def res_ok_def data_ok_def module_ok_def)
  then show ?thesis
    unfolding d
  proof (rule fold_parse_step_ok)
    fix doc
    assume "doc \<in> set (parsed_documents tf_files)"
    then show "set (declared_in (doc_resource doc))
          \<subseteq> (\<Union>doc \<in> set (parsed_documents tf_files). set (declared_in (doc_resource doc)))
        \<and> set (declared_in (doc_data doc))
          \<subseteq> (\<Union>doc \<in> set (parsed_documents tf_files). set (declared_in (doc_data doc)))"
      by (intro conjI UN_upper)
  qed
qed

lemma state_ok_scanned: "state_ok R D d \<Longrightarrow> scanned d"
proof -
  assume ok: "state_ok R D d"
  have "deps = extract_dependencies body" if "(n, body, deps) \<in> set (record_entries d)"
    for n body deps
    using that ok unfolding record_entries_iff state_ok_def res_ok_def data_ok_def module_ok_def
    by blast
  then show ?thesis
    unfolding scanned_def list_all_iff by blast
qed

lemma parse_terraform_scanned: "parse_terraform fs root = Inr d \<Longrightarrow> scanned d"
proof -
  assume p: "parse_terraform fs root = Inr d"
  then obtain tf_files where "fs root = Some tf_files"
    by (auto simp: parse_terraform_Inr)
  from parse_terraform_state_ok [OF p this] show ?thesis
    by (rule state_ok_scanned)
qed

lemma scanned_entry:
  "scanned d \<Longrightarrow> (n, body, deps) \<in> set (record_entries d) \<Longrightarrow> deps = extract_dependencies body"
  unfolding scanned_def list_all_iff by blast

subsection \<open>Documents as the parser library returns them\<close>

lemma characters_raise_resource:
  "resource_instances_loop f t (map (\<lambda>c. Malformed) b) rs = (if b = [] then Done rs else Raised rs)"
  by (cases b) simp_all

lemma characters_raise_data:
  "data_instances_loop f t (map (\<lambda>c. Malformed) b) ds = (if b = [] then Done ds else Raised ds)"
  by (cases b) simp_all

lemma resource_loop_typed_elements:
  "run_state (resource_loop f (map typed_element es) rs) = rs"
proof (induction es)
  case Nil
  show ?case by simp
next
  case (Cons e es)
  show ?case
  proof (cases "unpack_keys e")
    case None
    then show ?thesis by (simp add: typed_element_def)
  next
    case (Some ab)
    obtain a b where ab: "ab = (a, b)"
      by (cases ab)
    show ?thesis
      using Cons.IH by (simp add: typed_element_def Some ab characters_raise_resource)
  qed
qed

lemma data_loop_typed_elements:
  "run_state (data_loop f (map typed_element es) ds) = ds"
proof (induction es)
  case Nil
  show ?case by simp
next
  case (Cons e es)
  show ?case
  proof (cases "unpack_keys e")
    case None
    then show ?thesis by (simp add: typed_element_def)
  next
    case (Some ab)
    obtain a b where ab: "ab = (a, b)"
      by (cases ab)
    show ?thesis
      using Cons.IH by (simp add: typed_element_def Some ab characters_raise_data)
  qed
qed

lemma unpack_keys_one_key: "length e = 1 \<Longrightarrow> unpack_keys e = None"
  by (cases e) (simp_all add: unpack_keys_def)

lemma module_loop_one_key:
  "\<forall>e \<in> set es. length e = 1 \<Longrightarrow> run_state (module_loop f (map module_element es) ms) = ms"
  by (cases es) (simp_all add: module_element_def unpack_keys_one_key)

lemma parse_file_loaded:
  "resources (parse_file f (loaded parsed) st) = resources st"
  "data_sources (parse_file f (loaded parsed) st) = data_sources st"
proof -
  have r: "run_state (resource_section f (loaded parsed) rs) = rs" for rs
    by (cases "out_resource parsed")
      (simp_all add: resource_section_def loaded_def resource_loop_typed_elements)
  have d: "run_state (data_section f (loaded parsed) ds) = ds" for ds
    by (cases "out_data parsed")
      (simp_all add: data_section_def loaded_def data_loop_typed_elements)
  show "resources (parse_file f (loaded parsed) st) = resources st"
    by (simp add: parse_file_resources r)
  show "data_sources (parse_file f (loaded parsed) st) = data_sources st"
    by (simp add: parse_file_data_sources d)
qed

lemma parse_file_loaded_modules:
  assumes "out_module parsed = None \<or> (\<exists>es. out_module parsed = Some es \<and> (\<forall>e \<in> set es. length e = 1))"
  shows "modules (parse_file f (loaded parsed) st) = modules st"
proof -
  have "run_state (module_section f (loaded parsed) ms) = ms" for ms
    using assms by (auto simp: module_section_def loaded_def module_loop_one_key)
  then show ?thesis
    by (simp add: parse_file_modules)
qed

section \<open>Properties of the JSON exporter\<close>

lemma graph_to_json_nodes:
  "json_items (json_get (graph_to_json G) ''nodes'') =
     map (\<lambda>(node, attrs). JObj
            [(''id'', JStr node),
             (''name'', JStr (dict_get attrs ''name'' node)),
             (''type'', JStr (dict_get attrs ''type'' ''resource'')),
             (''resource_type'', JStr (dict_get attrs ''resource_type'' [])),
             (''file'', JStr (dict_get attrs ''file'' [])),
             (''group'', JInt (get_node_group (dict_get attrs ''type'' ''resource'')))])
       (graph_nodes G)"
  by (simp add: graph_to_json_def)

lemma graph_to_json_links:
  "json_items (json_get (graph_to_json G) ''links'') =
     map (\<lambda>edge. JObj
            [(''source'', JStr (fst edge)),
             (''target'', JStr (snd edge)),
             (''value'', JInt 1)])
       (graph_edges G)"
  by (simp add: graph_to_json_def)

lemma typed_graph_nth:
  "typed_graph G \<Longrightarrow> i < length (graph_nodes G) \<Longrightarrow>
    \<exists>t. map_of (snd (graph_nodes G ! i)) ''type'' = Some t"
proof -
  assume "typed_graph G" and "i < length (graph_nodes G)"
  then have "''type'' \<in> fst ` set (snd (graph_nodes G ! i))"
    by (simp add: typed_graph_nodes list_all_length)
  then have "map_of (snd (graph_nodes G ! i)) ''type'' \<noteq> None"
    by (simp only: map_of_eq_None_iff not_not)
  then show ?thesis
    by blast
qed

section \<open>Edges for recognised references\<close>

text \<open>
  C1, as stated, fails. In the example six resources hold in their configuration body a
  string that names the data source \<^verbatim>\<open>data.aws_ami.ubuntu\<close>, which is a record. All seven
  records are nodes, but the only edge is the one into \<^verbatim>\<open>aws_instance.a\<close>, where the
  string \<^verbatim>\<open>${data.aws_ami.ubuntu}\<close> is the value of a key other than \<^verbatim>\<open>source\<close> and is in
  the dependency list. In \<^verbatim>\<open>b\<close> the string is an element of a list and the scanner does
  not look at it. In \<^verbatim>\<open>c\<close> it is the value of the key \<^verbatim>\<open>source\<close> and is recorded with
  its marker, so it names no record. In \<^verbatim>\<open>d\<close> the string \<^verbatim>\<open>{data.aws_ami.ubuntu}\<close>
  begins with none of \<^verbatim>\<open>${\<close>, \<^verbatim>\<open>data.\<close> and \<^verbatim>\<open>module.\<close> and is not stripped at all. In
  \<^verbatim>\<open>e\<close> the reference is to an attribute: the recorded string
  \<^verbatim>\<open>data.aws_ami.ubuntu.id\<close> has the prefix \<^verbatim>\<open>data.\<close> but is not the name of a record.
  In \<^verbatim>\<open>f\<close> the body is that of \<^verbatim>\<open>a\<close> but the dependency list is empty: graph assembly
  reads the dependency list and never the body.
\<close>

theorem reference_edge_counterexample:
  "map fst (record_entries refs_data)
     = [''aws_instance.a'', ''aws_instance.b'', ''aws_instance.c'', ''aws_instance.d'',
        ''aws_instance.e'', ''aws_instance.f'', ''data.aws_ami.ubuntu'']
   \<and> map (all_strs \<circ> fst \<circ> snd) (record_entries refs_data)
     = [[''${data.aws_ami.ubuntu}''], [''${data.aws_ami.ubuntu}''], [''${data.aws_ami.ubuntu}''],
        [''{data.aws_ami.ubuntu}''], [''${data.aws_ami.ubuntu.id}''],
        [''${data.aws_ami.ubuntu}''], []]
   \<and> map entry_scanned (record_entries refs_data)
     = [True, True, True, True, True, False, True]
   \<and> strip ''${data.aws_ami.ubuntu}'' ''${}'' = ''data.aws_ami.ubuntu''
   \<and> strip ''{data.aws_ami.ubuntu}'' ''${}'' = ''data.aws_ami.ubuntu''
   \<and> strip ''${data.aws_ami.ubuntu.id}'' ''${}'' = ''data.aws_ami.ubuntu.id''
   \<and> startswith ''data.aws_ami.ubuntu'' [''data.'', ''module.'']
   \<and> startswith ''data.aws_ami.ubuntu.id'' [''data.'', ''module.'']
   \<and> map fst (graph_nodes (generate_graph refs_data))
     = [''aws_instance.a'', ''aws_instance.b'', ''aws_instance.c'', ''aws_instance.d'',
        ''aws_instance.e'', ''aws_instance.f'', ''data.aws_ami.ubuntu'']
   \<and> graph_edges (generate_graph refs_data) = [(''data.aws_ami.ubuntu'', ''aws_instance.a'')]
   \<and> (''data.aws_ami.ubuntu'', ''aws_instance.b'') \<notin> set (graph_edges (generate_graph refs_data))
   \<and> (''data.aws_ami.ubuntu'', ''aws_instance.c'') \<notin> set (graph_edges (generate_graph refs_data))
   \<and> (''data.aws_ami.ubuntu'', ''aws_instance.d'') \<notin> set (graph_edges (generate_graph refs_data))
   \<and> (''data.aws_ami.ubuntu'', ''aws_instance.e'') \<notin> set (graph_edges (generate_graph refs_data))
   \<and> (''data.aws_ami.ubuntu'', ''aws_instance.f'') \<notin> set (graph_edges (generate_graph refs_data))"
  by code_simp

text \<open>
  C1, amended. Let \<open>B\<close> be a record whose dependency list is the scanner's result on its
  configuration body, and let the body hold, as the value of a key in a dictionary at any
  depth, a string \<open>s\<close> such that either the key is \<^verbatim>\<open>source\<close> and \<open>s\<close> itself is \<open>A\<close>, or
  the key is another one, \<open>s\<close> begins with \<^verbatim>\<open>${\<close>, \<^verbatim>\<open>data.\<close> or \<^verbatim>\<open>module.\<close>, and \<open>s\<close>
  without its markers is \<open>A\<close> and begins with \<^verbatim>\<open>data.\<close> or \<^verbatim>\<open>module.\<close>. If \<open>A\<close> is the
  qualified name of a record, the assembled graph has the edge from \<open>A\<close> to \<open>B\<close>, exactly
  once, and both are nodes.
\<close>

theorem reference_edge:
  assumes "(B, body, deps) \<in> set (record_entries d)"
    and "deps = extract_dependencies body"
    and "(key, s) \<in> set (str_fields body)"
    and "(key = ''source'' \<and> A = s)
         \<or> (key \<noteq> ''source'' \<and> startswith s [''${'', ''data.'', ''module.'']
              \<and> A = strip s ''${}'' \<and> startswith A [''data.'', ''module.''])"
    and "A \<in> record_names d"
  shows "(A, B) \<in> set (graph_edges (generate_graph d))
     \<and> count_list (graph_edges (generate_graph d)) (A, B) = 1
     \<and> has_node (generate_graph d) A \<and> has_node (generate_graph d) B"
proof -
  note p = generate_graph_props [of d]
  have "A \<in> set (extract_dependencies body)"
    unfolding extract_dependencies_iff using assms(3,4) by blast
  with assms(2) have "A \<in> set deps"
    by simp
  with assms(1,5) p have edge: "(A, B) \<in> set (graph_edges (generate_graph d))"
    by blast
  have "distinct (graph_edges (generate_graph d))"
    using p by (simp add: wf_graph_distinct_edges)
  then have one: "count_list (graph_edges (generate_graph d)) (A, B) = 1"
    using edge by (rule distinct_count_list)
  have "B \<in> record_names d"
    using assms(1) by (force simp: record_names_def)
  with assms(5) p have "has_node (generate_graph d) A" "has_node (generate_graph d) B"
    by (simp_all add: has_node_def)
  with edge one show ?thesis
    by blast
qed

text \<open>
  The amended C1 on the example: the edge from \<^verbatim>\<open>data.aws_ami.ubuntu\<close> to
  \<^verbatim>\<open>aws_instance.a\<close>.
\<close>

theorem reference_edge_witness:
  "(''aws_instance.a'', HDict [(''ami'', HStr ''${data.aws_ami.ubuntu}'')], [''data.aws_ami.ubuntu''])
       \<in> set (record_entries refs_data)
   \<and> [''data.aws_ami.ubuntu'']
       = extract_dependencies (HDict [(''ami'', HStr ''${data.aws_ami.ubuntu}'')])
   \<and> (''ami'', ''${data.aws_ami.ubuntu}'')
       \<in> set (str_fields (HDict [(''ami'', HStr ''${data.aws_ami.ubuntu}'')]))
   \<and> ''ami'' \<noteq> ''source''
   \<and> startswith ''${data.aws_ami.ubuntu}'' [''${'', ''data.'', ''module.'']
   \<and> strip ''${data.aws_ami.ubuntu}'' ''${}'' = ''data.aws_ami.ubuntu''
   \<and> startswith ''data.aws_ami.ubuntu'' [''data.'', ''module.'']
   \<and> ''data.aws_ami.ubuntu'' \<in> record_names refs_data
   \<and> (''data.aws_ami.ubuntu'', ''aws_instance.a'') \<in> set (graph_edges (generate_graph refs_data))
   \<and> count_list (graph_edges (generate_graph refs_data))
         (''data.aws_ami.ubuntu'', ''aws_instance.a'') = 1
   \<and> has_node (generate_graph refs_data) ''data.aws_ami.ubuntu''
   \<and> has_node (generate_graph refs_data) ''aws_instance.a''"
proof -
  let ?body = "HDict [(''ami'', HStr ''${data.aws_ami.ubuntu}'')]"
  have e: "(''aws_instance.a'', ?body, [''data.aws_ami.ubuntu'']) \<in> set (record_entries refs_data)"
    by code_simp
  have s: "[''data.aws_ami.ubuntu''] = extract_dependencies ?body"
    by code_simp
  have f: "(''ami'', ''${data.aws_ami.ubuntu}'') \<in> set (str_fields ?body)"
    by code_simp
  have r: "''ami'' \<noteq> ''source''
     \<and> startswith ''${data.aws_ami.ubuntu}'' [''${'', ''data.'', ''module.'']
     \<and> strip ''${data.aws_ami.ubuntu}'' ''${}'' = ''data.aws_ami.ubuntu''
     \<and> startswith ''data.aws_ami.ubuntu'' [''data.'', ''module.'']"
    by code_simp
  have n: "''data.aws_ami.ubuntu'' \<in> record_names refs_data"
    by code_simp
  have "(''data.aws_ami.ubuntu'', ''aws_instance.a'') \<in> set (graph_edges (generate_graph refs_data))
     \<and> count_list (graph_edges (generate_graph refs_data))
           (''data.aws_ami.ubuntu'', ''aws_instance.a'') = 1
     \<and> has_node (generate_graph refs_data) ''data.aws_ami.ubuntu''
     \<and> has_node (generate_graph refs_data) ''aws_instance.a''"
    by (rule reference_edge [where A = "''data.aws_ami.ubuntu''", OF e s f _ n]) (use r in simp)
  with e s f r n show ?thesis
    by blast
qed

section \<open>Nodes and edges of the assembled graph\<close>

text \<open>
  C2. The nodes of the assembled graph are exactly the qualified names of the records, each
  once. Its edges are exactly the pairs of a dependency and a dependent where the
  dependency is listed by a record of that name and is itself the name of a record. A
  dependency string that names no record is not a node and is an end of no edge.
\<close>

theorem assembled_graph_nodes_edges:
  "fst ` set (graph_nodes (generate_graph d)) = record_names d
   \<and> distinct (map fst (graph_nodes (generate_graph d)))
   \<and> set (graph_edges (generate_graph d))
       = {(dep, n). dep \<in> record_names d
            \<and> (\<exists>body deps. (n, body, deps) \<in> set (record_entries d) \<and> dep \<in> set deps)}
   \<and> (dep \<notin> record_names d \<longrightarrow>
         \<not> has_node (generate_graph d) dep
         \<and> (\<forall>n. (dep, n) \<notin> set (graph_edges (generate_graph d))
                \<and> (n, dep) \<notin> set (graph_edges (generate_graph d))))"
proof -
  note p = generate_graph_props [of d]
  have names: "fst ` set (graph_nodes (generate_graph d)) = record_names d"
    using p map_fst_graph_nodes [of "generate_graph d"] by (metis list.set_map)
  have dist: "distinct (map fst (graph_nodes (generate_graph d)))"
    using p by (simp add: map_fst_graph_nodes wf_graph_def)
  have edges: "set (graph_edges (generate_graph d))
       = {(dep, n). dep \<in> record_names d
            \<and> (\<exists>body deps. (n, body, deps) \<in> set (record_entries d) \<and> dep \<in> set deps)}"
    using p by blast
  have "dep \<notin> record_names d \<longrightarrow>
         \<not> has_node (generate_graph d) dep
         \<and> (\<forall>n. (dep, n) \<notin> set (graph_edges (generate_graph d))
                \<and> (n, dep) \<notin> set (graph_edges (generate_graph d)))"
    unfolding edges has_node_def using p by (force simp: record_names_def)
  with names dist edges show ?thesis
    by blast
qed

text \<open>
  C2 on hand-written records: \<^verbatim>\<open>aws_vpc.missing\<close> is listed as a dependency and names no
  record; it yields neither a node nor an edge.
\<close>

theorem assembled_graph_nodes_edges_witness:
  "''aws_vpc.missing'' \<notin> record_names dangling_data
   \<and> map fst (graph_nodes (generate_graph dangling_data)) = [''aws_vpc.main'', ''aws_subnet.main'']
   \<and> graph_edges (generate_graph dangling_data) = [(''aws_vpc.main'', ''aws_subnet.main'')]
   \<and> \<not> has_node (generate_graph dangling_data) ''aws_vpc.missing''"
proof -
  have 1: "''aws_vpc.missing'' \<notin> record_names dangling_data"
    by code_simp
  have 2: "map fst (graph_nodes (generate_graph dangling_data))
      = [''aws_vpc.main'', ''aws_subnet.main'']"
    by code_simp
  have 3: "graph_edges (generate_graph dangling_data) = [(''aws_vpc.main'', ''aws_subnet.main'')]"
    by code_simp
  show ?thesis
    using assembled_graph_nodes_edges [of dangling_data "''aws_vpc.missing''"] 1 2 3
    by blast
qed

section \<open>Qualified names\<close>

text \<open>
  C3 does not hold of the code. The parser library returns each section as a list with one
  dictionary per block, and the loops of \<^verbatim>\<open>parse_terraform\<close> unpack each element of the
  list into two names, where \<^verbatim>\<open>generate_graph\<close> iterates its dictionaries with
  \<^verbatim>\<open>.items()\<close>. Whatever the parser returns for a file, the dictionaries of resources and
  of data sources are after the file what they were before it: an element with one key
  does not unpack, and of an element with two keys the second name is bound to a key, whose
  characters do not unpack. For the file of the repository's own test, which expects the
  key \<^verbatim>\<open>aws_vpc.main\<close> among the resources, and for a file with one block of each kind,
  \<^verbatim>\<open>parse_terraform\<close> returns three empty dictionaries.
\<close>

theorem parsed_blocks_not_extracted:
  "resources (parse_file tf_file (loaded parsed) st) = resources st
   \<and> data_sources (parse_file tf_file (loaded parsed) st) = data_sources st
   \<and> \<not> isl (parse_terraform example_fs ''/vpc'')
   \<and> resources (projr (parse_terraform example_fs ''/vpc'')) = []
   \<and> ''aws_vpc.main'' \<notin> fst ` set (resources (projr (parse_terraform example_fs ''/vpc'')))
   \<and> ''aws_subnet.main'' \<notin> fst ` set (resources (projr (parse_terraform example_fs ''/vpc'')))
   \<and> \<not> isl (parse_terraform example_fs ''/kinds'')
   \<and> resources (projr (parse_terraform example_fs ''/kinds'')) = []
   \<and> data_sources (projr (parse_terraform example_fs ''/kinds'')) = []
   \<and> modules (projr (parse_terraform example_fs ''/kinds'')) = []"
proof -
  have r: "resources (parse_file tf_file (loaded parsed) st) = resources st"
    by (rule parse_file_loaded(1))
  have d: "data_sources (parse_file tf_file (loaded parsed) st) = data_sources st"
    by (rule parse_file_loaded(2))
  have "\<not> isl (parse_terraform example_fs ''/vpc'')
     \<and> resources (projr (parse_terraform example_fs ''/vpc'')) = []
     \<and> ''aws_vpc.main'' \<notin> fst ` set (resources (projr (parse_terraform example_fs ''/vpc'')))
     \<and> ''aws_subnet.main'' \<notin> fst ` set (resources (projr (parse_terraform example_fs ''/vpc'')))
     \<and> \<not> isl (parse_terraform example_fs ''/kinds'')
     \<and> resources (projr (parse_terraform example_fs ''/kinds'')) = []
     \<and> data_sources (projr (parse_terraform example_fs ''/kinds'')) = []
     \<and> modules (projr (parse_terraform example_fs ''/kinds'')) = []"
    by code_simp
  with r d show ?thesis
    by blast
qed

section \<open>Fatal errors of parsing\<close>

text \<open>
  C4. \<^verbatim>\<open>parse_terraform\<close> fails with \<^verbatim>\<open>FileNotFoundError\<close> exactly when the root does not
  exist, and with \<^verbatim>\<open>ValueError\<close> exactly when the root exists and no path below it has the
  extension \<^verbatim>\<open>.tf\<close>; it returns the record collections exactly in the remaining
  case, so never together with an error.
\<close>

theorem parse_terraform_errors:
  "(parse_terraform fs root = Inl FileNotFoundError \<longleftrightarrow> fs root = None)
   \<and> (parse_terraform fs root = Inl ValueError \<longleftrightarrow> fs root = Some [])
   \<and> ((\<exists>d. parse_terraform fs root = Inr d)
        \<longleftrightarrow> (\<exists>tf_files. fs root = Some tf_files \<and> tf_files \<noteq> []))"
  by (auto simp: parse_terraform_def split: option.splits)

text \<open>
  C4 on the example file system: a missing root, an empty root and a root with a file.
\<close>

theorem parse_terraform_errors_witness:
  "example_fs ''/missing'' = None
   \<and> parse_terraform example_fs ''/missing'' = Inl FileNotFoundError
   \<and> example_fs ''/empty'' = Some []
   \<and> parse_terraform example_fs ''/empty'' = Inl ValueError
   \<and> (\<exists>d. parse_terraform example_fs ''/vpc'' = Inr d)"
  using parse_terraform_errors [of example_fs "''/missing''"]
    parse_terraform_errors [of example_fs "''/empty''"]
    parse_terraform_errors [of example_fs "''/vpc''"]
  by (simp add: example_fs_def)

section \<open>What the scanner records\<close>

text \<open>
  C5. A string is among the dependencies of a configuration body exactly when it is the
  value of a key \<^verbatim>\<open>source\<close>, or is the marker-stripped form, beginning with \<^verbatim>\<open>data.\<close> or
  \<^verbatim>\<open>module.\<close>, of the value of another key that begins with \<^verbatim>\<open>${\<close>, \<^verbatim>\<open>data.\<close> or
  \<^verbatim>\<open>module.\<close>. So \<^verbatim>\<open>aws_vpc.main.id\<close> is never a dependency unless it is the value of
  a key \<^verbatim>\<open>source\<close>, and in the graph of a parse run every edge starts at a string that
  begins with \<^verbatim>\<open>data.\<close> or \<^verbatim>\<open>module.\<close> or is the \<^verbatim>\<open>source\<close> value of the record the edge
  points to.
\<close>

theorem scanner_records_prefixed_or_source:
  "(d \<in> set (extract_dependencies body) \<longleftrightarrow>
      (\<exists>key s. (key, s) \<in> set (str_fields body) \<and>
        ((key = ''source'' \<and> d = s)
         \<or> (key \<noteq> ''source'' \<and> startswith s [''${'', ''data.'', ''module.'']
              \<and> d = strip s ''${}'' \<and> startswith d [''data.'', ''module.'']))))
   \<and> ((''source'', ''aws_vpc.main.id'') \<notin> set (str_fields body) \<longrightarrow>
        ''aws_vpc.main.id'' \<notin> set (extract_dependencies body))
   \<and> (parse_terraform fs root = Inr dat \<longrightarrow>
        (\<forall>(u, v) \<in> set (graph_edges (generate_graph dat)).
           startswith u [''data.'', ''module.'']
           \<or> (\<exists>body deps. (v, body, deps) \<in> set (record_entries dat)
                 \<and> (''source'', u) \<in> set (str_fields body))))"
proof (intro conjI impI)
  show "d \<in> set (extract_dependencies body) \<longleftrightarrow>
      (\<exists>key s. (key, s) \<in> set (str_fields body) \<and>
        ((key = ''source'' \<and> d = s)
         \<or> (key \<noteq> ''source'' \<and> startswith s [''${'', ''data.'', ''module.'']
              \<and> d = strip s ''${}'' \<and> startswith d [''data.'', ''module.''])))"
    by (rule extract_dependencies_iff)
  have "\<not> startswith ''aws_vpc.main.id'' [''data.'', ''module.'']"
    by (simp add: startswith_def)
  then show "''aws_vpc.main.id'' \<notin> set (extract_dependencies body)"
    if "(''source'', ''aws_vpc.main.id'') \<notin> set (str_fields body)"
    using that unfolding extract_dependencies_iff by blast
  show "\<forall>(u, v) \<in> set (graph_edges (generate_graph dat)).
           startswith u [''data.'', ''module.'']
           \<or> (\<exists>body deps. (v, body, deps) \<in> set (record_entries dat)
                 \<and> (''source'', u) \<in> set (str_fields body))"
    if p: "parse_terraform fs root = Inr dat"
  proof (intro ballI, clarify)
    fix u v
    assume e: "(u, v) \<in> set (graph_edges (generate_graph dat))"
      and no: "\<not> (\<exists>body deps. (v, body, deps) \<in> set (record_entries dat)
                 \<and> (''source'', u) \<in> set (str_fields body))"
    from e generate_graph_props [of dat] obtain body deps where
      entry: "(v, body, deps) \<in> set (record_entries dat)" and u: "u \<in> set deps"
      by blast
    have "deps = extract_dependencies body"
      using parse_terraform_scanned [OF p] entry by (rule scanned_entry)
    with u have "u \<in> set (extract_dependencies body)"
      by simp
    then obtain key s where "(key, s) \<in> set (str_fields body)"
      and "(key = ''source'' \<and> u = s)
         \<or> (key \<noteq> ''source'' \<and> startswith s [''${'', ''data.'', ''module.'']
              \<and> u = strip s ''${}'' \<and> startswith u [''data.'', ''module.''])"
      unfolding extract_dependencies_iff by blast
    with no entry show "startswith u [''data.'', ''module.'']"
      by blast
  qed
qed

text \<open>
  C5 on the configuration body of the subnet of the repository's test, with
  \<^verbatim>\<open>vpc_id = aws_vpc.main.id\<close>: no dependency is recorded, neither for the bare reference
  nor for the interpolated one, and the graph of the parse run on the test's file has no
  edge.
\<close>

theorem scanner_records_prefixed_or_source_witness:
  "(''source'', ''aws_vpc.main.id'')
      \<notin> set (str_fields (HDict [(''vpc_id'', HStr ''aws_vpc.main.id''),
            (''cidr_block'', HStr ''10.0.1.0/24''),
            (''tags'', HDict [(''Name'', HStr ''test-subnet'')])]))
   \<and> ''aws_vpc.main.id''
      \<notin> set (extract_dependencies (HDict [(''vpc_id'', HStr ''aws_vpc.main.id''),
            (''cidr_block'', HStr ''10.0.1.0/24''),
            (''tags'', HDict [(''Name'', HStr ''test-subnet'')])]))
   \<and> extract_dependencies (HDict [(''vpc_id'', HStr ''aws_vpc.main.id''),
            (''cidr_block'', HStr ''10.0.1.0/24''),
            (''tags'', HDict [(''Name'', HStr ''test-subnet'')])]) = []
   \<and> extract_dependencies (HDict [(''vpc_id'', HStr ''${aws_vpc.main.id}''),
            (''cidr_block'', HStr ''10.0.1.0/24''),
            (''tags'', HDict [(''Name'', HStr ''test-subnet'')])]) = []
   \<and> \<not> isl (parse_terraform example_fs ''/vpc'')
   \<and> graph_edges (generate_graph (projr (parse_terraform example_fs ''/vpc''))) = []"
proof -
  let ?body = "HDict [(''vpc_id'', HStr ''aws_vpc.main.id''),
            (''cidr_block'', HStr ''10.0.1.0/24''),
            (''tags'', HDict [(''Name'', HStr ''test-subnet'')])]"
  have 1: "(''source'', ''aws_vpc.main.id'') \<notin> set (str_fields ?body)"
    by code_simp
  have 2: "extract_dependencies ?body = []"
    by code_simp
  have 3: "extract_dependencies (HDict [(''vpc_id'', HStr ''${aws_vpc.main.id}''),
            (''cidr_block'', HStr ''10.0.1.0/24''),
            (''tags'', HDict [(''Name'', HStr ''test-subnet'')])]) = []"
    by code_simp
  have 4: "\<not> isl (parse_terraform example_fs ''/vpc'')"
    by code_simp
  have 5: "graph_edges (generate_graph (projr (parse_terraform example_fs ''/vpc''))) = []"
    by code_simp
  have 6: "''aws_vpc.main.id'' \<notin> set (extract_dependencies ?body)"
    using scanner_records_prefixed_or_source [of "''aws_vpc.main.id''" ?body example_fs "''/vpc''"
        "projr (parse_terraform example_fs ''/vpc'')"] 1
    by blast
  from 1 2 3 4 5 6 show ?thesis
    by blast
qed

section \<open>The JSON document\<close>

text \<open>
  C6. For the graph assembled from any records, the exported document lists as many node
  objects as the graph has nodes and as many link objects as it has edges, no node and no
  edge being counted twice. Every link has the value 1 and the two ends of its edge. The
  node object at each position carries the name of the node at that position as its id,
  the \<^verbatim>\<open>type\<close> attribute of that node as its type, and the group of that type. The
  document read back is taken to be the document written: the serialisation is the
  standard library's, and the document holds only dictionaries, lists, strings and
  integers.
\<close>

theorem json_export_round_trip:
  assumes "G = generate_graph d"
    and "ns = json_items (json_get (graph_to_json G) ''nodes'')"
    and "ls = json_items (json_get (graph_to_json G) ''links'')"
  shows "length ns = length (graph_nodes G) \<and> distinct (map fst (graph_nodes G))
     \<and> length ls = length (graph_edges G) \<and> distinct (graph_edges G)
     \<and> (\<forall>l \<in> set ls. json_get l ''value'' = Some (JInt 1))
     \<and> (\<forall>j < length ls.
           json_get (ls ! j) ''source'' = Some (JStr (fst (graph_edges G ! j)))
           \<and> json_get (ls ! j) ''target'' = Some (JStr (snd (graph_edges G ! j))))
     \<and> (\<forall>i < length ns. \<exists>t.
           map_of (snd (graph_nodes G ! i)) ''type'' = Some t
           \<and> json_get (ns ! i) ''id'' = Some (JStr (fst (graph_nodes G ! i)))
           \<and> json_get (ns ! i) ''type'' = Some (JStr t)
           \<and> json_get (ns ! i) ''group'' = Some (JInt (get_node_group t)))"
proof (intro conjI)
  note p = generate_graph_props [of d]
  show "length ns = length (graph_nodes G)"
    by (simp add: assms(2) graph_to_json_nodes)
  show "distinct (map fst (graph_nodes G))"
    using p by (simp add: assms(1) map_fst_graph_nodes wf_graph_def)
  show "length ls = length (graph_edges G)"
    by (simp add: assms(3) graph_to_json_links)
  show "distinct (graph_edges G)"
    using p by (simp add: assms(1) wf_graph_distinct_edges)
  show "\<forall>l \<in> set ls. json_get l ''value'' = Some (JInt 1)"
    by (auto simp: assms(3) graph_to_json_links)
  show "\<forall>j < length ls.
           json_get (ls ! j) ''source'' = Some (JStr (fst (graph_edges G ! j)))
           \<and> json_get (ls ! j) ''target'' = Some (JStr (snd (graph_edges G ! j)))"
    by (simp add: assms(3) graph_to_json_links)
  show "\<forall>i < length ns. \<exists>t.
           map_of (snd (graph_nodes G ! i)) ''type'' = Some t
           \<and> json_get (ns ! i) ''id'' = Some (JStr (fst (graph_nodes G ! i)))
           \<and> json_get (ns ! i) ''type'' = Some (JStr t)
           \<and> json_get (ns ! i) ''group'' = Some (JInt (get_node_group t))"
  proof (intro allI impI)
    fix i
    assume "i < length ns"
    then have i: "i < length (graph_nodes G)"
      by (simp add: assms(2) graph_to_json_nodes)
    have "typed_graph G"
      using p by (simp add: assms(1))
    from typed_graph_nth [OF this i] obtain t where
      t: "map_of (snd (graph_nodes G ! i)) ''type'' = Some t"
      by blast
    obtain node attrs where na: "graph_nodes G ! i = (node, attrs)"
      by (cases "graph_nodes G ! i")
    with t have "dict_get attrs ''type'' ''resource'' = t"
      by (simp add: dict_get_def)
    with i na t show "\<exists>t.
           map_of (snd (graph_nodes G ! i)) ''type'' = Some t
           \<and> json_get (ns ! i) ''id'' = Some (JStr (fst (graph_nodes G ! i)))
           \<and> json_get (ns ! i) ''type'' = Some (JStr t)
           \<and> json_get (ns ! i) ''group'' = Some (JInt (get_node_group t))"
      by (simp add: assms(2) graph_to_json_nodes)
  qed
qed

text \<open>
  C6 on hand-written records: two node objects and one link object.
\<close>

theorem json_export_round_trip_witness:
  "json_items (json_get (graph_to_json (generate_graph dangling_data)) ''nodes'') =
     [JObj [(''id'', JStr ''aws_vpc.main''), (''name'', JStr ''main''),
            (''type'', JStr ''resource''), (''resource_type'', JStr ''aws_vpc''),
            (''file'', JStr ''main.tf''), (''group'', JInt 1)],
      JObj [(''id'', JStr ''aws_subnet.main''), (''name'', JStr ''main''),
            (''type'', JStr ''resource''), (''resource_type'', JStr ''aws_subnet''),
            (''file'', JStr ''main.tf''), (''group'', JInt 1)]]
   \<and> json_items (json_get (graph_to_json (generate_graph dangling_data)) ''links'') =
     [JObj [(''source'', JStr ''aws_vpc.main''), (''target'', JStr ''aws_subnet.main''),
            (''value'', JInt 1)]]
   \<and> length (graph_nodes (generate_graph dangling_data)) = 2
   \<and> length (graph_edges (generate_graph dangling_data)) = 1"
proof -
  have 1: "json_items (json_get (graph_to_json (generate_graph dangling_data)) ''nodes'') =
     [JObj [(''id'', JStr ''aws_vpc.main''), (''name'', JStr ''main''),
            (''type'', JStr ''resource''), (''resource_type'', JStr ''aws_vpc''),
            (''file'', JStr ''main.tf''), (''group'', JInt 1)],
      JObj [(''id'', JStr ''aws_subnet.main''), (''name'', JStr ''main''),
            (''type'', JStr ''resource''), (''resource_type'', JStr ''aws_subnet''),
            (''file'', JStr ''main.tf''), (''group'', JInt 1)]]"
    by code_simp
  have 2: "json_items (json_get (graph_to_json (generate_graph dangling_data)) ''links'') =
     [JObj [(''source'', JStr ''aws_vpc.main''), (''target'', JStr ''aws_subnet.main''),
            (''value'', JInt 1)]]"
    by code_simp
  from json_export_round_trip [OF refl refl refl, of dangling_data] 
  have "length (graph_nodes (generate_graph dangling_data)) = 2"
    and "length (graph_edges (generate_graph dangling_data)) = 1"
    unfolding 1 2 by simp_all
  with 1 2 show ?thesis
    by simp
qed

section \<open>Node styles\<close>

text \<open>
  C7. The colour, shape and group of a node type are defined for every string:
  \<^verbatim>\<open>resource\<close> gives \<^verbatim>\<open>#4CAF50\<close>, \<^verbatim>\<open>box\<close> and 1; \<^verbatim>\<open>data\<close> gives \<^verbatim>\<open>#2196F3\<close>,
  \<^verbatim>\<open>ellipse\<close> and 2; \<^verbatim>\<open>module\<close> gives \<^verbatim>\<open>#FF9800\<close>, \<^verbatim>\<open>diamond\<close> and 3; any other
  string gives the defaults \<^verbatim>\<open>#9E9E9E\<close>, \<^verbatim>\<open>box\<close> and 0.
\<close>

theorem node_styles_total:
  "get_node_color ''resource'' = ''#4CAF50'' \<and> get_node_shape ''resource'' = ''box''
     \<and> get_node_group ''resource'' = 1
   \<and> get_node_color ''data'' = ''#2196F3'' \<and> get_node_shape ''data'' = ''ellipse''
     \<and> get_node_group ''data'' = 2
   \<and> get_node_color ''module'' = ''#FF9800'' \<and> get_node_shape ''module'' = ''diamond''
     \<and> get_node_group ''module'' = 3
   \<and> (node_type \<notin> {''resource'', ''data'', ''module''} \<longrightarrow>
        get_node_color node_type = ''#9E9E9E'' \<and> get_node_shape node_type = ''box''
        \<and> get_node_group node_type = 0)"
  by (simp add: get_node_color_def get_node_shape_def get_node_group_def dict_get_def)

text \<open>
  C7 on the string \<^verbatim>\<open>unknown\<close>.
\<close>

theorem node_styles_total_witness:
  "''unknown'' \<notin> {''resource'', ''data'', ''module''}
   \<and> get_node_color ''unknown'' = ''#9E9E9E'' \<and> get_node_shape ''unknown'' = ''box''
   \<and> get_node_group ''unknown'' = 0"
  using node_styles_total [of "''unknown''"] by simp

section \<open>Order of the two rules\<close>

text \<open>
  C8, as stated, fails. For a key \<^verbatim>\<open>source\<close> with the value \<^verbatim>\<open>${module.x}\<close> the scanner
  records the value as it stands, the \<^verbatim>\<open>source\<close> rule being tried first; with the prefix
  rule tried first the recorded string is \<^verbatim>\<open>module.x\<close>. The two dependency sets differ.
\<close>

theorem rule_order_counterexample:
  "extract_dependencies (HDict [(''source'', HStr ''${module.x}'')]) = [''${module.x}'']
   \<and> remdups (extract_refs_b_first (HDict [(''source'', HStr ''${module.x}'')]) []) = [''module.x'']
   \<and> set (extract_refs (HDict [(''source'', HStr ''${module.x}'')]) [])
      \<noteq> set (extract_refs_b_first (HDict [(''source'', HStr ''${module.x}'')]) [])"
  by code_simp

text \<open>
  C8, amended. The \<^verbatim>\<open>source\<close> rule takes precedence and excludes the prefix rule: a body
  with only a key \<^verbatim>\<open>source\<close> has the value of the key, as it stands, as its one
  dependency, and the prefix rule contributes a dependency only for the values of other
  keys. Trying the prefix rule first records the same strings, as a list and as a set,
  exactly on the configuration bodies in which every string value of a key \<^verbatim>\<open>source\<close>
  either begins with none of \<^verbatim>\<open>${\<close>, \<^verbatim>\<open>data.\<close> and \<^verbatim>\<open>module.\<close>, or begins with
  \<^verbatim>\<open>data.\<close> or \<^verbatim>\<open>module.\<close> and is left as it is by the stripping.
\<close>

theorem rule_order_agreement:
  "extract_dependencies (HDict [(''source'', HStr s)]) = [s]
   \<and> (d \<in> set (extract_dependencies body) \<longleftrightarrow>
        (\<exists>key t. (key, t) \<in> set (str_fields body) \<and>
          ((key = ''source'' \<and> d = t)
           \<or> (key \<noteq> ''source'' \<and> startswith t [''${'', ''data.'', ''module.'']
                \<and> d = strip t ''${}'' \<and> startswith d [''data.'', ''module.'']))))
   \<and> (set (remdups (extract_refs_b_first body [])) = set (extract_dependencies body) \<longleftrightarrow>
        (\<forall>f \<in> set (str_fields body). fst f = ''source'' \<longrightarrow> order_free (snd f)))
   \<and> (extract_refs_b_first body [] = extract_refs body [] \<longleftrightarrow>
        (\<forall>f \<in> set (str_fields body). fst f = ''source'' \<longrightarrow> order_free (snd f)))"
proof (intro conjI)
  show "extract_dependencies (HDict [(''source'', HStr s)]) = [s]"
    by (simp add: extract_dependencies_def)
  show "d \<in> set (extract_dependencies body) \<longleftrightarrow>
        (\<exists>key t. (key, t) \<in> set (str_fields body) \<and>
          ((key = ''source'' \<and> d = t)
           \<or> (key \<noteq> ''source'' \<and> startswith t [''${'', ''data.'', ''module.'']
                \<and> d = strip t ''${}'' \<and> startswith d [''data.'', ''module.''])))"
    by (rule extract_dependencies_iff)
  show "set (remdups (extract_refs_b_first body [])) = set (extract_dependencies body) \<longleftrightarrow>
        (\<forall>f \<in> set (str_fields body). fst f = ''source'' \<longrightarrow> order_free (snd f))"
    using rule_order_lists(2) [of body] by (simp add: extract_dependencies_def)
  show "extract_refs_b_first body [] = extract_refs body [] \<longleftrightarrow>
        (\<forall>f \<in> set (str_fields body). fst f = ''source'' \<longrightarrow> order_free (snd f))"
    by (rule rule_order_lists(1))
qed

text \<open>
  The amended C8 on a body with a path and with \<^verbatim>\<open>data.x.y\<close> as values of \<^verbatim>\<open>source\<close>,
  where the two orders agree, and on \<^verbatim>\<open>source = "${module.x}"\<close>, where they do not.
\<close>

theorem rule_order_agreement_witness:
  "order_free ''./modules/vpc'' \<and> order_free ''data.x.y''
   \<and> set (extract_dependencies (HDict [(''source'', HStr ''./modules/vpc''),
                            (''nested'', HDict [(''source'', HStr ''data.x.y'')]),
                            (''vpc_id'', HStr ''${module.net.id}'')]))
       = {''./modules/vpc'', ''data.x.y'', ''module.net.id''}
   \<and> set (remdups (extract_refs_b_first (HDict [(''source'', HStr ''./modules/vpc''),
                            (''nested'', HDict [(''source'', HStr ''data.x.y'')]),
                            (''vpc_id'', HStr ''${module.net.id}'')]) []))
       = {''./modules/vpc'', ''data.x.y'', ''module.net.id''}
   \<and> extract_dependencies (HDict [(''source'', HStr ''data.x.y'')]) = [''data.x.y'']
   \<and> \<not> order_free ''${module.x}''
   \<and> set (remdups (extract_refs_b_first (HDict [(''source'', HStr ''${module.x}'')]) []))
       \<noteq> set (extract_dependencies (HDict [(''source'', HStr ''${module.x}'')]))"
proof -
  let ?body = "HDict [(''source'', HStr ''./modules/vpc''),
                            (''nested'', HDict [(''source'', HStr ''data.x.y'')]),
                            (''vpc_id'', HStr ''${module.net.id}'')]"
  let ?bad = "HDict [(''source'', HStr ''${module.x}'')]"
  have 1: "order_free ''./modules/vpc'' \<and> order_free ''data.x.y''"
    by code_simp
  have 2: "set (extract_dependencies ?body) = {''./modules/vpc'', ''data.x.y'', ''module.net.id''}"
    by code_simp
  have 3: "\<forall>f \<in> set (str_fields ?body). fst f = ''source'' \<longrightarrow> order_free (snd f)"
    by code_simp
  have 4: "\<not> order_free ''${module.x}''"
    by code_simp
  have 5: "\<not> (\<forall>f \<in> set (str_fields ?bad). fst f = ''source'' \<longrightarrow> order_free (snd f))"
    by code_simp
  from rule_order_agreement [of "''data.x.y''" "''x''" ?body] 3
  have 6: "set (remdups (extract_refs_b_first ?body [])) = set (extract_dependencies ?body)"
    and 7: "extract_dependencies (HDict [(''source'', HStr ''data.x.y'')]) = [''data.x.y'']"
    by blast+
  from rule_order_agreement [of "''x''" "''x''" ?bad] 5
  have 8: "set (remdups (extract_refs_b_first ?bad [])) \<noteq> set (extract_dependencies ?bad)"
    by blast
  from 1 2 4 6 7 8 show ?thesis
    by simp
qed

section \<open>Strings inside lists\<close>

text \<open>
  C9. A string that is a direct element of a list is never recorded, whatever it begins
  with: removing all such strings from a configuration body, at every depth, leaves the
  dependencies unchanged, and a list of strings, alone or as the value of any key, gives no
  dependency at all.
\<close>

theorem list_elements_not_scanned:
  "extract_dependencies (drop_list_strs body) = extract_dependencies body
   \<and> extract_dependencies (HList (map HStr ss)) = []
   \<and> extract_dependencies (HDict [(key, HList (map HStr ss))]) = []"
  by (simp add: extract_dependencies_def extract_refs_fields(1) str_fields_drop_list_strs(1)
      str_fields_elems_strs)

section \<open>Stripping the interpolation marker\<close>

text \<open>
  C10, as stated, fails. The value of a key \<^verbatim>\<open>source\<close> is recorded as it stands, whatever
  it begins with: under that key \<^verbatim>\<open>data.a.b}\<close> is recorded with its closing brace and the
  unbalanced \<^verbatim>\<open>${module.x\<close> with its marker.
\<close>

theorem strip_source_counterexample:
  "extract_dependencies (HDict [(''source'', HStr ''data.a.b}'')]) = [''data.a.b}'']
   \<and> ''data.a.b'' \<notin> set (extract_dependencies (HDict [(''source'', HStr ''data.a.b}'')]))
   \<and> extract_dependencies (HDict [(''source'', HStr ''${module.x'')]) = [''${module.x'']
   \<and> ''module.x'' \<notin> set (extract_dependencies (HDict [(''source'', HStr ''${module.x'')]))"
  by code_simp

text \<open>
  C10, amended. For a string value that begins with \<^verbatim>\<open>${\<close>, \<^verbatim>\<open>data.\<close> or \<^verbatim>\<open>module.\<close>,
  under a key other than \<^verbatim>\<open>source\<close>, what is recorded (when the prefix test passes) is
  the value without all its leading and all its trailing characters among \<^verbatim>\<open>$\<close>, \<^verbatim>\<open>{\<close>
  and \<^verbatim>\<open>}\<close>: the value is the recorded string between two runs of such characters, and
  the recorded string neither begins nor ends with one. So under such a key \<^verbatim>\<open>data.a.b}\<close>
  is recorded as \<^verbatim>\<open>data.a.b\<close> and the unbalanced \<^verbatim>\<open>${module.x\<close> as \<^verbatim>\<open>module.x\<close>.
\<close>

theorem strip_removes_all_markers:
  "key \<noteq> ''source'' \<Longrightarrow> startswith s [''${'', ''data.'', ''module.''] \<Longrightarrow>
     extract_dependencies (HDict [(key, HStr s)]) =
       (if startswith (strip s ''${}'') [''data.'', ''module.''] then [strip s ''${}'']
        else [])
     \<and> (\<exists>l r. s = l @ strip s ''${}'' @ r
           \<and> set l \<subseteq> {CHR ''$'', CHR ''{'', CHR ''}''}
           \<and> set r \<subseteq> {CHR ''$'', CHR ''{'', CHR ''}''})
     \<and> (strip s ''${}'' \<noteq> [] \<longrightarrow>
           hd (strip s ''${}'') \<notin> {CHR ''$'', CHR ''{'', CHR ''}''}
           \<and> last (strip s ''${}'') \<notin> {CHR ''$'', CHR ''{'', CHR ''}''})
     \<and> extract_dependencies (HDict [(key, HStr ''data.a.b}'')]) = [''data.a.b'']
     \<and> extract_dependencies (HDict [(key, HStr ''${module.x'')]) = [''module.x'']"
proof (intro conjI)
  assume key: "key \<noteq> ''source''" and s: "startswith s [''${'', ''data.'', ''module.'']"
  show "extract_dependencies (HDict [(key, HStr s)]) =
           (if startswith (strip s ''${}'') [''data.'', ''module.''] then [strip s ''${}'']
            else [])"
    using key s by (simp add: extract_dependencies_def Let_def)
  show "\<exists>l r. s = l @ strip s ''${}'' @ r
           \<and> set l \<subseteq> {CHR ''$'', CHR ''{'', CHR ''}''}
           \<and> set r \<subseteq> {CHR ''$'', CHR ''{'', CHR ''}''}"
    using strip_decomposition [of s "''${}''"] by simp
  show "strip s ''${}'' \<noteq> [] \<longrightarrow>
           hd (strip s ''${}'') \<notin> {CHR ''$'', CHR ''{'', CHR ''}''}
           \<and> last (strip s ''${}'') \<notin> {CHR ''$'', CHR ''{'', CHR ''}''}"
    using strip_ends [of s "''${}''"] by simp
  show "extract_dependencies (HDict [(key, HStr ''data.a.b}'')]) = [''data.a.b'']"
    using key by (simp add: extract_dependencies_def startswith_def strip_def)
  show "extract_dependencies (HDict [(key, HStr ''${module.x'')]) = [''module.x'']"
    using key by (simp add: extract_dependencies_def startswith_def strip_def)
qed

text \<open>
  The amended C10 on a value wrapped in two pairs of braces.
\<close>

theorem strip_removes_all_markers_witness:
  "''vpc_id'' \<noteq> ''source'' \<and> startswith ''${{data.a.b}}'' [''${'', ''data.'', ''module.'']
   \<and> strip ''${{data.a.b}}'' ''${}'' = ''data.a.b''
   \<and> extract_dependencies (HDict [(''vpc_id'', HStr ''${{data.a.b}}'')]) = [''data.a.b'']"
  using strip_removes_all_markers [of "''vpc_id''" "''${{data.a.b}}''"]
  by (simp add: startswith_def strip_def)

end
